theory Spec2Isabelle
  imports Complex_Main "HOL-Library.Word" "HOL-Library.Multiset"
begin

section \<open>Errors and machine arithmetic\<close>

text \<open>
  Go panics (index out of range, explicit \<^verbatim>\<open>panic\<close>) and returned \<^verbatim>\<open>error\<close> values are
  both results of the model; they are kept apart because callers can only react to the second.
\<close>

datatype error =
    IndexOutOfRange          \<comment> \<open>runtime panic: index out of range\<close>
  | Panic string             \<comment> \<open>explicit \<^verbatim>\<open>panic(...)\<close>\<close>
  | Err string               \<comment> \<open>a returned \<^verbatim>\<open>error\<close>\<close>
  | Diverges                 \<comment> \<open>the loop never leaves\<close>

definition bindE :: "error + 'a \<Rightarrow> ('a \<Rightarrow> error + 'b) \<Rightarrow> error + 'b" where
  "bindE r f = (case r of Inl e \<Rightarrow> Inl e | Inr x \<Rightarrow> f x)"

text \<open>Slice read and write with Go's bounds check.\<close>

definition rd :: "'a list \<Rightarrow> nat \<Rightarrow> error + 'a" where
  "rd xs i = (if i < length xs then Inr (xs ! i) else Inl IndexOutOfRange)"

definition wr :: "'a list \<Rightarrow> nat \<Rightarrow> 'a \<Rightarrow> error + 'a list" where
  "wr xs i v = (if i < length xs then Inr (xs[i := v]) else Inl IndexOutOfRange)"

text \<open>Unsigned arithmetic of width 8, 16, 32 and 64 on \<^typ>\<open>nat\<close>, wrap-around written out.\<close>

definition add8 :: "nat \<Rightarrow> nat \<Rightarrow> nat" where "add8 a b = (a + b) mod 2 ^ 8"
definition sub8 :: "nat \<Rightarrow> nat \<Rightarrow> nat" where "sub8 a b = (a + 2 ^ 8 - b mod 2 ^ 8) mod 2 ^ 8"
definition add32 :: "nat \<Rightarrow> nat \<Rightarrow> nat" where "add32 a b = (a + b) mod 2 ^ 32"
definition sub32 :: "nat \<Rightarrow> nat \<Rightarrow> nat" where "sub32 a b = (a + 2 ^ 32 - b mod 2 ^ 32) mod 2 ^ 32"
definition add64 :: "nat \<Rightarrow> nat \<Rightarrow> nat" where "add64 a b = (a + b) mod 2 ^ 64"

text \<open>
  \<^verbatim>\<open>int64\<close> as an integer in \<open>[-2^63, 2^63)\<close>: \<open>s64\<close> wraps a result into the range.
  Go's \<^verbatim>\<open>/\<close> on signed integers truncates towards zero.
\<close>

definition s64 :: "int \<Rightarrow> int" where
  "s64 x = (x + 2 ^ 63) mod 2 ^ 64 - 2 ^ 63"

definition tdiv :: "int \<Rightarrow> int \<Rightarrow> int" where
  "tdiv a b = sgn a * sgn b * (\<bar>a\<bar> div \<bar>b\<bar>)"

text \<open>
  \<^verbatim>\<open>float64\<close>: only comparisons, \<^verbatim>\<open>math.Min\<close>, \<^verbatim>\<open>math.Max\<close> and the NaN test are used
  on items, so a value is NaN or an ordered number; rounding plays no part in what is proved
  here. Comparisons with NaN are false.
\<close>

datatype float64 = NaN | Fin real

fun IsNaN :: "float64 \<Rightarrow> bool" where
  "IsNaN NaN = True"
| "IsNaN (Fin x) = False"

fun flt :: "float64 \<Rightarrow> float64 \<Rightarrow> bool" where
  "flt (Fin x) (Fin y) = (x < y)"
| "flt _ _ = False"

fun fneq :: "float64 \<Rightarrow> float64 \<Rightarrow> bool" where
  "fneq (Fin x) (Fin y) = (x \<noteq> y)"
| "fneq _ _ = True"

fun math_Min :: "float64 \<Rightarrow> float64 \<Rightarrow> float64" where
  "math_Min (Fin x) (Fin y) = Fin (min x y)"
| "math_Min _ _ = NaN"

fun math_Max :: "float64 \<Rightarrow> float64 \<Rightarrow> float64" where
  "math_Max (Fin x) (Fin y) = Fin (max x y)"
| "math_Max _ _ = NaN"

section \<open>Level capacities\<close>

definition powersOfThree :: "nat list" where
  "powersOfThree = [1, 3, 9, 27, 81, 243, 729, 2187, 6561, 19683, 59049, 177147, 531441,
     1594323, 4782969, 14348907, 43046721, 129140163, 387420489, 1162261467,
     3486784401, 10460353203, 31381059609, 94143178827, 282429536481,
     847288609443, 2541865828329, 7625597484987, 22876792454961, 68630377364883,
     205891132094649]"

subsection \<open>The generic items sketch: \<^verbatim>\<open>uint16\<close> K, \<^verbatim>\<open>uint8\<close> depth, \<^verbatim>\<open>uint64\<close> intermediate\<close>

text \<open>
  \<^verbatim>\<open>twok := uint64(k << 1)\<close>: \<^verbatim>\<open>k\<close> is a \<^verbatim>\<open>uint16\<close>, so the shift is a 16-bit shift and
  only its result is widened. \<^verbatim>\<open>twok << depth\<close> is a 64-bit shift (0 from 64 bits on),
  \<^verbatim>\<open>powersOfThree[depth]\<close> panics beyond the table.
\<close>

definition intCapAuxAux :: "nat \<Rightarrow> nat \<Rightarrow> error + nat" where
  "intCapAuxAux k depth =
     (let twok = (k * 2) mod 2 ^ 16
      in bindE (rd powersOfThree depth) (\<lambda>p3.
           let tmp = ((twok * 2 ^ depth) mod 2 ^ 64) div p3;
               result = ((tmp + 1) mod 2 ^ 64) div 2
           in if result \<le> k then Inr (result mod 2 ^ 32) else Inr k))"

definition intCapAux :: "nat \<Rightarrow> nat \<Rightarrow> error + nat" where
  "intCapAux k depth =
     (if depth \<le> 30 then intCapAuxAux k depth
      else let half = depth div 2; rest = sub8 depth half
           in bindE (intCapAuxAux k half) (\<lambda>tmp. intCapAuxAux (tmp mod 2 ^ 16) rest))"

definition levelCapacity :: "nat \<Rightarrow> nat \<Rightarrow> nat \<Rightarrow> nat \<Rightarrow> error + nat" where
  "levelCapacity k numLevels level m =
     (let depth = sub8 (sub8 numLevels level) 1
      in bindE (intCapAux k depth) (\<lambda>c. Inr (max m c)))"

function computeTotalItemCapacity_loop :: "nat \<Rightarrow> nat \<Rightarrow> nat \<Rightarrow> nat \<Rightarrow> nat \<Rightarrow> error + nat" where
  "computeTotalItemCapacity_loop k m numLevels level tot =
     (if level < numLevels then
        bindE (levelCapacity k numLevels level m) (\<lambda>c.
          computeTotalItemCapacity_loop k m numLevels (level + 1) (add32 tot c))
      else Inr tot)"
  by pat_completeness auto
termination
  by (relation "measure (\<lambda>(k, m, numLevels, level, tot). numLevels - level)") auto

text \<open>\<^verbatim>\<open>level\<close> is a \<^verbatim>\<open>uint8\<close> below \<^verbatim>\<open>numLevels\<close>, itself at most 255: the increment never wraps.\<close>

definition computeTotalItemCapacity :: "nat \<Rightarrow> nat \<Rightarrow> nat \<Rightarrow> error + nat" where
  "computeTotalItemCapacity k m numLevels = computeTotalItemCapacity_loop k m numLevels 0 0"

subsection \<open>The double sketch (helper file): \<^verbatim>\<open>int\<close> arguments, \<^verbatim>\<open>int64\<close> intermediate\<close>

definition helper_intCapAuxAux :: "int \<Rightarrow> int \<Rightarrow> error + int" where
  "helper_intCapAuxAux k depth =
     (let twok = s64 (k * 2)
      in if depth < 0 then Inl IndexOutOfRange
         else bindE (rd powersOfThree (nat depth)) (\<lambda>p3.
           let shifted = (if depth < 64 then s64 (twok * 2 ^ nat depth) else 0);
               tmp = tdiv shifted (int p3);
               result = s64 (tmp + 1) div 2
           in if result > k then Inl (Err ''result > k'') else Inr result))"

definition helper_intCapAux :: "int \<Rightarrow> int \<Rightarrow> error + int" where
  "helper_intCapAux k depth =
     (if depth \<le> 30 then helper_intCapAuxAux k depth
      else let half = tdiv depth 2; rest = depth - half
           in bindE (helper_intCapAuxAux k half) (\<lambda>tmp. helper_intCapAuxAux tmp rest))"

definition helper_levelCapacity :: "int \<Rightarrow> int \<Rightarrow> int \<Rightarrow> int \<Rightarrow> error + int" where
  "helper_levelCapacity k numLevels level m =
     (if k > 2 ^ 29 then Inl (Err ''k > (1 << 29)'')
      else if numLevels < 1 \<or> numLevels > 61 then Inl (Err ''numLevels < 1 || numLevels > 61'')
      else if level < 0 \<or> level \<ge> numLevels then Inl (Err ''level < 0 || level >= numLevels'')
      else let depth = numLevels - level - 1
           in bindE (helper_intCapAux k depth) (\<lambda>v. Inr (max m v)))"

subsection \<open>The capacity as the specification words it\<close>

text \<open>
  \<open>max(M, \<lceil>(2K \<sqdot> (2/3)^depth + 1)/2\<rceil>)\<close> clamped at \<open>K\<close>, over the rationals.
\<close>

definition spec_intCapAux :: "nat \<Rightarrow> nat \<Rightarrow> nat" where
  "spec_intCapAux k depth =
     min k (nat \<lceil>(2 * rat_of_nat k * (2 / 3) ^ depth + 1) / 2\<rceil>)"

definition spec_levelCapacity :: "nat \<Rightarrow> nat \<Rightarrow> nat \<Rightarrow> nat \<Rightarrow> nat" where
  "spec_levelCapacity k numLevels level m = max m (spec_intCapAux k (numLevels - level - 1))"

subsection \<open>The capacity as the code computes it, without machine widths\<close>

definition round_cap :: "nat \<Rightarrow> nat \<Rightarrow> nat" where
  "round_cap k depth = ((2 * k * 2 ^ depth) div 3 ^ depth + 1) div 2"

definition two_step_cap :: "nat \<Rightarrow> nat \<Rightarrow> nat" where
  "two_step_cap k depth =
     (if depth \<le> 30 then round_cap k depth
      else round_cap (round_cap k (depth div 2)) (depth - depth div 2))"

section \<open>Cumulative weights (sorted view)\<close>

text \<open>
  \<^verbatim>\<open>convertToCumulative(array []int64) ([]int64, int64)\<close>: the loop keeps \<^verbatim>\<open>subtotal\<close>,
  adds the current entry to it, stores the sum in the slot, and sets \<^verbatim>\<open>subtotal = array[i]\<close>
  before the store, that is, to the entry as it was. \<^verbatim>\<open>int64\<close> addition wraps; the bit
  pattern is that of a 64-bit word.
\<close>

function convertToCumulative_loop :: "nat \<Rightarrow> 64 word \<Rightarrow> 64 word list \<Rightarrow> 64 word list \<times> 64 word" where
  "convertToCumulative_loop i subtotal array =
     (if i < length array then
        (let newSubtotal = subtotal + array ! i;
             subtotal' = array ! i;
             array' = array[i := newSubtotal]
         in convertToCumulative_loop (i + 1) subtotal' array')
      else (array, subtotal))"
  by pat_completeness auto
termination
  by (relation "measure (\<lambda>(i, s, a). length a - i)") auto

definition convertToCumulative :: "64 word list \<Rightarrow> 64 word list \<times> 64 word" where
  "convertToCumulative array = convertToCumulative_loop 0 0 array"

text \<open>What the name and the sorted view ask for: running sums.\<close>

fun running_sums :: "64 word \<Rightarrow> 64 word list \<Rightarrow> 64 word list" where
  "running_sums acc [] = []"
| "running_sums acc (w # ws) = (acc + w) # running_sums (acc + w) ws"

section \<open>Halving and merging of sorted runs\<close>

subsection \<open>Generic items: \<^verbatim>\<open>uint32\<close> indices, the keep-offset is the constant 1\<close>

text \<open>
  \<^verbatim>\<open>randomlyHalveUpItems\<close> and \<^verbatim>\<open>randomlyHalveDownItems\<close> of the items sketch: the line
  \<^verbatim>\<open>offset := rand.Intn(2)\<close> is commented out in the source and replaced by \<^verbatim>\<open>offset := 1\<close>, so
  the functions take no random input. The upward loop counts a \<^verbatim>\<open>uint32\<close> down while
  \<^verbatim>\<open>i >= start + halfLength\<close>; when that bound is 0 the counter wraps to \<open>2^32 - 1\<close>, where
  the access panics unless the slice is that long, in which case the loop never ends.
\<close>

function randomlyHalveUpItems_loop :: "nat \<Rightarrow> nat \<Rightarrow> nat \<Rightarrow> 'a list \<Rightarrow> error + 'a list" where
  "randomlyHalveUpItems_loop bound i j buf =
     (if i \<ge> bound then
        (if i < length buf \<and> j < length buf then
           (if i = 0 then (if length buf < 2 ^ 32 then Inl IndexOutOfRange else Inl Diverges)
            else randomlyHalveUpItems_loop bound (i - 1) (sub32 j 2) (buf[i := buf ! j]))
         else Inl IndexOutOfRange)
      else Inr buf)"
  by pat_completeness auto
termination
  by (relation "measure (\<lambda>(bound, i, j, buf). i)") auto

definition randomlyHalveUpItems :: "'a list \<Rightarrow> nat \<Rightarrow> nat \<Rightarrow> error + 'a list" where
  "randomlyHalveUpItems buf start len =
     (let halfLength = len div 2;
          offset = 1;
          j = sub32 (sub32 (add32 start len) 1) offset
      in randomlyHalveUpItems_loop (add32 start halfLength) (sub32 (add32 start len) 1) j buf)"

function randomlyHalveDownItems_loop :: "nat \<Rightarrow> nat \<Rightarrow> nat \<Rightarrow> 'a list \<Rightarrow> error + 'a list" where
  "randomlyHalveDownItems_loop bound i j buf =
     (if i < bound then
        (if i < length buf \<and> j < length buf then
           randomlyHalveDownItems_loop bound (i + 1) (add32 j 2) (buf[i := buf ! j])
         else Inl IndexOutOfRange)
      else Inr buf)"
  by pat_completeness auto
termination
  by (relation "measure (\<lambda>(bound, i, j, buf). bound - i)") auto

definition randomlyHalveDownItems :: "'a list \<Rightarrow> nat \<Rightarrow> nat \<Rightarrow> error + 'a list" where
  "randomlyHalveDownItems buf start len =
     (let halfLength = len div 2;
          offset = 1;
          j = add32 start offset
      in randomlyHalveDownItems_loop (add32 start halfLength) start j buf)"

text \<open>
  \<^verbatim>\<open>mergeSortedItemsArrays(bufA, startA, lenA, bufB, startB, lenB, bufC, startC, lessFn)\<close>.
  The three slices may be one and the same array (both compaction paths pass the same buffer
  three times), so the buffers live in a store and the function gets their names.
\<close>

type_synonym 'a store = "nat \<Rightarrow> 'a list"

function mergeSortedItemsArrays_loop ::
  "('a \<Rightarrow> 'a \<Rightarrow> bool) \<Rightarrow> nat \<Rightarrow> nat \<Rightarrow> nat \<Rightarrow> nat \<Rightarrow> nat \<Rightarrow> nat \<Rightarrow>
   nat \<Rightarrow> nat \<Rightarrow> nat \<Rightarrow> 'a store \<Rightarrow> error + 'a store" where
  "mergeSortedItemsArrays_loop lessFn bufA limA bufB limB bufC limC c a b st =
     (if c < limC then
        (if a = limA then
           bindE (rd (st bufB) b) (\<lambda>v. bindE (wr (st bufC) c v) (\<lambda>cs.
             mergeSortedItemsArrays_loop lessFn bufA limA bufB limB bufC limC
               (c + 1) a (add32 b 1) (st(bufC := cs))))
         else if b = limB then
           bindE (rd (st bufA) a) (\<lambda>v. bindE (wr (st bufC) c v) (\<lambda>cs.
             mergeSortedItemsArrays_loop lessFn bufA limA bufB limB bufC limC
               (c + 1) (add32 a 1) b (st(bufC := cs))))
         else
           bindE (rd (st bufA) a) (\<lambda>x. bindE (rd (st bufB) b) (\<lambda>y.
             if lessFn x y then
               bindE (wr (st bufC) c x) (\<lambda>cs.
                 mergeSortedItemsArrays_loop lessFn bufA limA bufB limB bufC limC
                   (c + 1) (add32 a 1) b (st(bufC := cs)))
             else
               bindE (wr (st bufC) c y) (\<lambda>cs.
                 mergeSortedItemsArrays_loop lessFn bufA limA bufB limB bufC limC
                   (c + 1) a (add32 b 1) (st(bufC := cs))))))
      else Inr st)"
  by pat_completeness auto
termination
  by (relation "measure (\<lambda>(lessFn, bufA, limA, bufB, limB, bufC, limC, c, a, b, st). limC - c)") auto

definition mergeSortedItemsArrays ::
  "('a \<Rightarrow> 'a \<Rightarrow> bool) \<Rightarrow> 'a store \<Rightarrow> nat \<Rightarrow> nat \<Rightarrow> nat \<Rightarrow> nat \<Rightarrow> nat \<Rightarrow> nat \<Rightarrow>
   nat \<Rightarrow> nat \<Rightarrow> error + 'a store" where
  "mergeSortedItemsArrays lessFn st bufA startA lenA bufB startB lenB bufC startC =
     (let lenC = add32 lenA lenB;
          limA = add32 startA lenA;
          limB = add32 startB lenB;
          limC = add32 startC lenC
      in mergeSortedItemsArrays_loop lessFn bufA limA bufB limB bufC limC startC startA startB st)"

subsection \<open>Doubles: \<^verbatim>\<open>int\<close> indices, the keep-offset is drawn by \<^verbatim>\<open>rand.Intn(2)\<close>\<close>

text \<open>
  The draw is an argument \<open>offset\<close> of the model (0 or 1). A negative index panics, so the
  downward counter stops at \<open>-1\<close> at the latest.
\<close>

definition rdi :: "'a list \<Rightarrow> int \<Rightarrow> error + 'a" where
  "rdi xs i = (if 0 \<le> i \<and> i < int (length xs) then Inr (xs ! nat i) else Inl IndexOutOfRange)"

definition wri :: "'a list \<Rightarrow> int \<Rightarrow> 'a \<Rightarrow> error + 'a list" where
  "wri xs i v = (if 0 \<le> i \<and> i < int (length xs) then Inr (xs[nat i := v]) else Inl IndexOutOfRange)"

function randomlyHalveUpDoubles_loop :: "int \<Rightarrow> int \<Rightarrow> int \<Rightarrow> 'a list \<Rightarrow> error + 'a list" where
  "randomlyHalveUpDoubles_loop bound i j buf =
     (if i \<ge> bound then
        (if 0 \<le> i \<and> i < int (length buf) \<and> 0 \<le> j \<and> j < int (length buf) then
           randomlyHalveUpDoubles_loop bound (i - 1) (s64 (j - 2)) (buf[nat i := buf ! nat j])
         else Inl IndexOutOfRange)
      else Inr buf)"
  by pat_completeness auto
termination
  by (relation "measure (\<lambda>(bound, i, j, buf). nat (i + 1))") auto

definition randomlyHalveUpDoubles :: "int \<Rightarrow> 'a list \<Rightarrow> int \<Rightarrow> int \<Rightarrow> error + 'a list" where
  "randomlyHalveUpDoubles offset buf start len =
     (let halfLength = tdiv len 2;
          j = s64 (s64 (s64 (start + len) - 1) - offset)
      in randomlyHalveUpDoubles_loop (s64 (start + halfLength)) (s64 (s64 (start + len) - 1)) j buf)"

function randomlyHalveDownDoubles_loop :: "int \<Rightarrow> int \<Rightarrow> int \<Rightarrow> 'a list \<Rightarrow> error + 'a list" where
  "randomlyHalveDownDoubles_loop bound i j buf =
     (if i < bound then
        (if 0 \<le> i \<and> i < int (length buf) \<and> 0 \<le> j \<and> j < int (length buf) then
           randomlyHalveDownDoubles_loop bound (i + 1) (s64 (j + 2)) (buf[nat i := buf ! nat j])
         else Inl IndexOutOfRange)
      else Inr buf)"
  by pat_completeness auto
termination
  by (relation "measure (\<lambda>(bound, i, j, buf). nat (bound - i))") auto

definition randomlyHalveDownDoubles :: "int \<Rightarrow> 'a list \<Rightarrow> int \<Rightarrow> int \<Rightarrow> error + 'a list" where
  "randomlyHalveDownDoubles offset buf start len =
     (let halfLength = tdiv len 2;
          j = s64 (start + offset)
      in randomlyHalveDownDoubles_loop (s64 (start + halfLength)) start j buf)"

text \<open>
  \<^verbatim>\<open>mergeSortedDoubleArrays\<close>: the same loop with \<^verbatim>\<open>int\<close> counters and the built-in \<^verbatim>\<open><\<close>
  of \<^verbatim>\<open>float64\<close>.
\<close>

function mergeSortedDoubleArrays_loop ::
  "nat \<Rightarrow> int \<Rightarrow> nat \<Rightarrow> int \<Rightarrow> nat \<Rightarrow> int \<Rightarrow>
   int \<Rightarrow> int \<Rightarrow> int \<Rightarrow> float64 store \<Rightarrow> error + float64 store" where
  "mergeSortedDoubleArrays_loop bufA limA bufB limB bufC limC c a b st =
     (if c < limC then
        (if a = limA then
           bindE (rdi (st bufB) b) (\<lambda>v. bindE (wri (st bufC) c v) (\<lambda>cs.
             mergeSortedDoubleArrays_loop bufA limA bufB limB bufC limC
               (c + 1) a (s64 (b + 1)) (st(bufC := cs))))
         else if b = limB then
           bindE (rdi (st bufA) a) (\<lambda>v. bindE (wri (st bufC) c v) (\<lambda>cs.
             mergeSortedDoubleArrays_loop bufA limA bufB limB bufC limC
               (c + 1) (s64 (a + 1)) b (st(bufC := cs))))
         else
           bindE (rdi (st bufA) a) (\<lambda>x. bindE (rdi (st bufB) b) (\<lambda>y.
             if flt x y then
               bindE (wri (st bufC) c x) (\<lambda>cs.
                 mergeSortedDoubleArrays_loop bufA limA bufB limB bufC limC
                   (c + 1) (s64 (a + 1)) b (st(bufC := cs)))
             else
               bindE (wri (st bufC) c y) (\<lambda>cs.
                 mergeSortedDoubleArrays_loop bufA limA bufB limB bufC limC
                   (c + 1) a (s64 (b + 1)) (st(bufC := cs))))))
      else Inr st)"
  by pat_completeness auto
termination
  by (relation "measure (\<lambda>(bufA, limA, bufB, limB, bufC, limC, c, a, b, st). nat (limC - c))") auto

definition mergeSortedDoubleArrays ::
  "float64 store \<Rightarrow> nat \<Rightarrow> int \<Rightarrow> int \<Rightarrow> nat \<Rightarrow> int \<Rightarrow> int \<Rightarrow> nat \<Rightarrow> int \<Rightarrow>
   error + float64 store" where
  "mergeSortedDoubleArrays st bufA startA lenA bufB startB lenB bufC startC =
     (let lenC = s64 (lenA + lenB);
          limA = s64 (startA + lenA);
          limB = s64 (startB + lenB);
          limC = s64 (startC + lenC)
      in mergeSortedDoubleArrays_loop bufA limA bufB limB bufC limC startC startA startB st)"


subsection \<open>What a merge of two sorted runs has to deliver\<close>

text \<open>
  \<open>slice_of buf start len\<close> is Go's \<^verbatim>\<open>buf[start : start+len]\<close> read as a list. A run is ascending
  for a comparator when no later element is less than an earlier one. A comparator is a
  strict-less comparator on a set of values when it is asymmetric and negatively transitive
  there (a strict weak order).
\<close>

definition slice_of :: "'a list \<Rightarrow> nat \<Rightarrow> nat \<Rightarrow> 'a list" where
  "slice_of buf start len = take len (drop start buf)"

definition ascending :: "('a \<Rightarrow> 'a \<Rightarrow> bool) \<Rightarrow> 'a list \<Rightarrow> bool" where
  "ascending lessFn xs = sorted_wrt (\<lambda>x y. \<not> lessFn y x) xs"

definition strict_less_on :: "'a set \<Rightarrow> ('a \<Rightarrow> 'a \<Rightarrow> bool) \<Rightarrow> bool" where
  "strict_less_on S lessFn \<longleftrightarrow>
     (\<forall>x\<in>S. \<forall>y\<in>S. lessFn x y \<longrightarrow> \<not> lessFn y x) \<and>
     (\<forall>x\<in>S. \<forall>y\<in>S. \<forall>z\<in>S. lessFn x z \<longrightarrow> lessFn x y \<or> lessFn y z)"

text \<open>
  The destination against a source \<open>X\<close> (the other source being \<open>Y\<close>). After \<open>i\<close> elements of
  \<open>X\<close> and \<open>j\<close> of \<open>Y\<close> have been consumed the loop writes the cell \<open>startC + i + j\<close>, and the
  part of \<open>X\<close> not yet consumed is \<open>[startX + i, startX + lenX)\<close>. When both are cells of the
  same array, \<open>writes_clear\<close> says that no write lands on a cell of \<open>X\<close> that is still to be
  read; the one write that may hit the cell under the read head is the copy of that cell onto
  itself, which happens only once \<open>Y\<close> is used up. \<open>dest_clear\<close> is the same condition in
  closed form (the theorems show the equivalence): the destination starts at or behind the end
  of \<open>X\<close>, or it starts at least \<open>lenY\<close> cells before \<open>X\<close>. Both calls of the compaction code
  are of this kind: \<open>A\<close> ends where \<open>C\<close> starts, and \<open>B\<close> starts \<open>lenA\<close> cells behind the start
  of \<open>C\<close>.
\<close>

definition writes_clear :: "nat \<Rightarrow> nat \<Rightarrow> nat \<Rightarrow> nat \<Rightarrow> nat \<Rightarrow> nat \<Rightarrow> bool" where
  "writes_clear bufX startX lenX lenY bufC startC \<longleftrightarrow>
     (bufX = bufC \<longrightarrow>
        (\<forall>i\<in>{..<lenX}. \<forall>j\<in>{..lenY}.
           startC + i + j < startX + i \<or> startX + lenX \<le> startC + i + j \<or>
           (startC + i + j = startX + i \<and> j = lenY)))"

definition dest_clear :: "nat \<Rightarrow> nat \<Rightarrow> nat \<Rightarrow> nat \<Rightarrow> nat \<Rightarrow> nat \<Rightarrow> bool" where
  "dest_clear bufX startX lenX lenY bufC startC \<longleftrightarrow>
     bufX \<noteq> bufC \<or> lenX = 0 \<or> startX + lenX \<le> startC \<or> startC + lenY \<le> startX"

text \<open>The list the merge loop writes, as a function of the two runs it reads.\<close>

fun merge_lists :: "('a \<Rightarrow> 'a \<Rightarrow> bool) \<Rightarrow> 'a list \<Rightarrow> 'a list \<Rightarrow> 'a list" where
  "merge_lists lessFn [] ys = ys"
| "merge_lists lessFn (x # xs) [] = x # xs"
| "merge_lists lessFn (x # xs) (y # ys) =
     (if lessFn x y then x # merge_lists lessFn xs (y # ys)
      else y # merge_lists lessFn (x # xs) ys)"
section \<open>The sorted view of the double sketch\<close>

text \<open>
  Arithmetic on ranks: only the subtraction of \<^verbatim>\<open>getPMF\<close> is used; it is exact on numbers
  here (rounding is not modelled) and NaN as soon as an operand is.
\<close>

fun fsub :: "float64 \<Rightarrow> float64 \<Rightarrow> float64" where
  "fsub (Fin x) (Fin y) = Fin (x - y)"
| "fsub _ _ = NaN"

record doubleSketchSortedView =
  v_quantiles :: "float64 list"
  v_cumWeights :: "64 word list"
  v_totalN :: int
  v_maxItem :: float64
  v_minItem :: float64

datatype KllSearchCriteria = KLL_INCLUSIVE | KLL_EXCLUSIVE

definition view_IsEmpty :: "doubleSketchSortedView \<Rightarrow> bool" where
  "view_IsEmpty v = (v_totalN v = 0)"

function checkDoublesSplitPointsOrder_loop :: "float64 list \<Rightarrow> int \<Rightarrow> error + unit" where
  "checkDoublesSplitPointsOrder_loop values j =
     (if j < int (length values) - 1 then
        bindE (rdi values j) (\<lambda>x. bindE (rdi values (j + 1)) (\<lambda>y.
          if flt x y then checkDoublesSplitPointsOrder_loop values (j + 1)
          else Inl (Err ''Values must be unique, monotonically increasing and not NaN.'')))
      else Inr ())"
  by pat_completeness auto
termination
  by (relation "measure (\<lambda>(values, j). nat (int (length values) - 1 - j))") auto

definition checkDoublesSplitPointsOrder :: "float64 list \<Rightarrow> error + unit" where
  "checkDoublesSplitPointsOrder values =
     (if length values = 1 \<and> fneq (values ! 0) (values ! 0)
      then Inl (Err ''Values must be unique, monotonically increasing and not NaN.'')
      else checkDoublesSplitPointsOrder_loop values 0)"

definition checkNormalizedRankBounds :: "float64 \<Rightarrow> error + unit" where
  "checkNormalizedRankBounds nRank =
     (if flt nRank (Fin 0) \<or> flt (Fin 1) nRank
      then Inl (Err ''A normalized rank must be >= 0 and <= 1.0'')
      else Inr ())"

text \<open>
  \<^verbatim>\<open>getRank\<close> and \<^verbatim>\<open>getQuantile\<close> of the view are stubs in the source: after their checks they
  \<^verbatim>\<open>panic("not implemented")\<close>.
\<close>

definition view_getRank :: "doubleSketchSortedView \<Rightarrow> float64 \<Rightarrow> KllSearchCriteria \<Rightarrow> error + float64" where
  "view_getRank v quantile searchCriteria =
     (if view_IsEmpty v then Inl (Err ''v.IsEmpty()'') else Inl (Panic ''not implemented''))"

definition view_getQuantile :: "doubleSketchSortedView \<Rightarrow> float64 \<Rightarrow> KllSearchCriteria \<Rightarrow> error + float64" where
  "view_getQuantile v rank searchCriteria =
     (if view_IsEmpty v then Inl (Err ''v.IsEmpty()'')
      else bindE (checkNormalizedRankBounds rank) (\<lambda>_. Inl (Panic ''not implemented'')))"

text \<open>
  \<^verbatim>\<open>getCDF\<close> and \<^verbatim>\<open>getPMF\<close>, written over the rank function they call; the view's
  methods below pass the view's own \<^verbatim>\<open>getRank\<close>.
\<close>

function getCDF_loop ::
  "(float64 \<Rightarrow> error + float64) \<Rightarrow> float64 list \<Rightarrow> int \<Rightarrow> int \<Rightarrow> float64 list \<Rightarrow> error + float64 list" where
  "getCDF_loop rank splitPoints leng i buckets =
     (if i < leng - 1 then
        bindE (rdi splitPoints i) (\<lambda>q. bindE (rank q) (\<lambda>r. bindE (wri buckets i r) (\<lambda>bs.
          getCDF_loop rank splitPoints leng (i + 1) bs)))
      else Inr buckets)"
  by pat_completeness auto
termination
  by (relation "measure (\<lambda>(rank, splitPoints, leng, i, buckets). nat (leng - 1 - i))") auto

definition getCDF_with :: "(float64 \<Rightarrow> error + float64) \<Rightarrow> float64 list \<Rightarrow> error + float64 list" where
  "getCDF_with rank splitPoints =
     bindE (checkDoublesSplitPointsOrder splitPoints) (\<lambda>_.
       let leng = int (length splitPoints) + 1;
           buckets = replicate (nat leng) (Fin 0)
       in bindE (getCDF_loop rank splitPoints leng 0 buckets) (\<lambda>bs.
            wri bs (leng - 1) (Fin 1)))"

function getPMF_loop :: "int \<Rightarrow> float64 list \<Rightarrow> error + float64 list" where
  "getPMF_loop i buckets =
     (if i > 1 then
        bindE (rdi buckets i) (\<lambda>x. bindE (rdi buckets (i - 1)) (\<lambda>y.
          bindE (wri buckets i (fsub x y)) (\<lambda>bs. getPMF_loop (i - 1) bs)))
      else Inr buckets)"
  by pat_completeness auto
termination
  by (relation "measure (\<lambda>(i, buckets). nat i)") auto

definition getPMF_with :: "(float64 \<Rightarrow> error + float64) \<Rightarrow> float64 list \<Rightarrow> error + float64 list" where
  "getPMF_with rank splitPoints =
     bindE (getCDF_with rank splitPoints) (\<lambda>buckets. getPMF_loop (int (length buckets)) buckets)"

definition view_getCDF :: "doubleSketchSortedView \<Rightarrow> float64 list \<Rightarrow> KllSearchCriteria \<Rightarrow> error + float64 list" where
  "view_getCDF v splitPoints searchCriteria =
     getCDF_with (\<lambda>q. view_getRank v q searchCriteria) splitPoints"

definition view_getPMF :: "doubleSketchSortedView \<Rightarrow> float64 list \<Rightarrow> KllSearchCriteria \<Rightarrow> error + float64 list" where
  "view_getPMF v splitPoints searchCriteria =
     getPMF_with (\<lambda>q. view_getRank v q searchCriteria) splitPoints"

section \<open>The double sketch\<close>

text \<open>
  \<^verbatim>\<open>DoubleSketch\<close> as the later of the two revisions in the sources has it (the one with the
  sorted view). \<^verbatim>\<open>int\<close> is 64 bits wide: \<open>addi\<close> and \<open>subi\<close> wrap. The embedded
  \<^verbatim>\<open>sketchType\<close> is read by no function and its declaration is not among the sources; it is
  left out.
\<close>

definition addi :: "int \<Rightarrow> int \<Rightarrow> int" where "addi a b = s64 (a + b)"
definition subi :: "int \<Rightarrow> int \<Rightarrow> int" where "subi a b = s64 (a - b)"

datatype sketchStructure = COMPACT_EMPTY | COMPACT_SINGLE | COMPACT_FULL | UPDATABLE

record DoubleSketch =
  d_sketchStructure :: sketchStructure
  d_kllDoublesSV :: "doubleSketchSortedView option"
  d_readOnly :: bool
  d_levelsArr :: "int list"
  d_k :: int
  d_m :: int
  d_n :: int
  d_minK :: int
  d_isLevelZeroSorted :: bool
  d_minDoubleItem :: float64
  d_maxDoubleItem :: float64
  d_doubleItems :: "float64 list"

definition checkK :: "int \<Rightarrow> int \<Rightarrow> error + unit" where
  "checkK k m = (if k < m \<or> k > 65535 then Inl (Err ''K must be >= m and <= 65535'') else Inr ())"

definition checkM :: "int \<Rightarrow> error + unit" where
  "checkM m = (if m < 2 \<or> m > 8 \<or> m mod 2 = 1
               then Inl (Err ''M must be >= 2, <= 8 and even'') else Inr ())"

definition NewKllDoubleSketch :: "int \<Rightarrow> int \<Rightarrow> error + DoubleSketch" where
  "NewKllDoubleSketch k m =
     bindE (checkK k m) (\<lambda>_. bindE (checkM m) (\<lambda>_.
       Inr \<lparr>d_sketchStructure = UPDATABLE, d_kllDoublesSV = None, d_readOnly = False,
            d_levelsArr = [k, k], d_k = k, d_m = m, d_n = 0, d_minK = k,
            d_isLevelZeroSorted = False, d_minDoubleItem = NaN, d_maxDoubleItem = NaN,
            d_doubleItems = replicate (nat k) (Fin 0)\<rparr>))"

definition d_GetN :: "DoubleSketch \<Rightarrow> int" where "d_GetN s = d_n s"

definition d_IsEmpty :: "DoubleSketch \<Rightarrow> bool" where "d_IsEmpty s = (d_GetN s = 0)"

definition d_GetMinItem :: "DoubleSketch \<Rightarrow> error + float64" where
  "d_GetMinItem s = (if d_IsEmpty s then Inl (Err ''empty sketch'') else Inr (d_minDoubleItem s))"

definition d_GetMaxItem :: "DoubleSketch \<Rightarrow> error + float64" where
  "d_GetMaxItem s = (if d_IsEmpty s then Inl (Err ''empty sketch'') else Inr (d_maxDoubleItem s))"

definition d_getNumLevels :: "DoubleSketch \<Rightarrow> int" where
  "d_getNumLevels s =
     (if d_sketchStructure s = UPDATABLE \<or> d_sketchStructure s = COMPACT_FULL
      then int (length (d_levelsArr s)) - 1 else 1)"

definition d_GetNumRetained :: "DoubleSketch \<Rightarrow> error + int" where
  "d_GetNumRetained s =
     bindE (rdi (d_levelsArr s) (d_getNumLevels s)) (\<lambda>top.
       bindE (rdi (d_levelsArr s) 0) (\<lambda>l0. Inr (subi top l0)))"

text \<open>
  \<^verbatim>\<open>getLevelsArray(structure)\<close>. The later revision allocates \<^verbatim>\<open>make([]int, len(k.levelsArr))\<close>;
  the earlier one \<^verbatim>\<open>make([]int, 0, len(k.levelsArr))\<close>, a slice of length 0 into which \<^verbatim>\<open>copy\<close>
  copies nothing and an indexed store panics.
\<close>

definition d_getLevelsArray :: "DoubleSketch \<Rightarrow> sketchStructure \<Rightarrow> error + int list" where
  "d_getLevelsArray s structure =
     (if structure = UPDATABLE then Inr (d_levelsArr s)
      else if structure = COMPACT_FULL then Inr (butlast (d_levelsArr s) @ (if d_levelsArr s = [] then [] else [0]))
      else Inr [])"

definition d_getLevelsArray_v0 :: "DoubleSketch \<Rightarrow> sketchStructure \<Rightarrow> error + int list" where
  "d_getLevelsArray_v0 s structure =
     (if structure = UPDATABLE then Inr []
      else if structure = COMPACT_FULL then
        (if 0 < int (length (d_levelsArr s)) - 1 then Inl IndexOutOfRange else Inr [])
      else Inr [])"

function helper_findLevelToCompact_loop :: "int \<Rightarrow> int \<Rightarrow> int \<Rightarrow> int list \<Rightarrow> int \<Rightarrow> error + int" where
  "helper_findLevelToCompact_loop k m numLevels levels level =
     (if level \<ge> numLevels then Inl (Err ''level >= numLevels'')
      else bindE (rdi levels (level + 1)) (\<lambda>hi. bindE (rdi levels level) (\<lambda>lo.
        let pop = subi hi lo
        in bindE (helper_levelCapacity k numLevels level m) (\<lambda>capacity.
             if pop \<ge> capacity then Inr level
             else helper_findLevelToCompact_loop k m numLevels levels (level + 1)))))"
  by pat_completeness auto
termination
  by (relation "measure (\<lambda>(k, m, numLevels, levels, level). nat (numLevels - level))") auto

definition helper_findLevelToCompact :: "int \<Rightarrow> int \<Rightarrow> int \<Rightarrow> int list \<Rightarrow> error + int" where
  "helper_findLevelToCompact k m numLevels levels = helper_findLevelToCompact_loop k m numLevels levels 0"

function d_addTop_levels_loop :: "int \<Rightarrow> int \<Rightarrow> int \<Rightarrow> int list \<Rightarrow> error + int list" where
  "d_addTop_levels_loop myNewNumLevels deltaItemsCap level arr =
     (if level \<le> myNewNumLevels - 1 then
        bindE (rdi arr level) (\<lambda>x. bindE (wri arr level (addi x deltaItemsCap)) (\<lambda>arr'.
          d_addTop_levels_loop myNewNumLevels deltaItemsCap (level + 1) arr'))
      else Inr arr)"
  by pat_completeness auto
termination
  by (relation "measure (\<lambda>(myNewNumLevels, deltaItemsCap, level, arr). nat (myNewNumLevels - level))") auto

function d_addTop_items_loop :: "int \<Rightarrow> int \<Rightarrow> float64 list \<Rightarrow> int \<Rightarrow> float64 list \<Rightarrow> error + float64 list" where
  "d_addTop_items_loop cap deltaItemsCap cur i new =
     (if i < cap then
        bindE (rdi cur i) (\<lambda>x. bindE (wri new (addi i deltaItemsCap) x) (\<lambda>new'.
          d_addTop_items_loop cap deltaItemsCap cur (i + 1) new'))
      else Inr new)"
  by pat_completeness auto
termination
  by (relation "measure (\<lambda>(cap, deltaItemsCap, cur, i, new). nat (cap - i))") auto

text \<open>
  \<^verbatim>\<open>make\<close> panics on a negative length. \<^verbatim>\<open>copy(dst, src)\<close> copies the shorter of the two
  lengths.
\<close>

definition make_slice :: "int \<Rightarrow> 'a \<Rightarrow> error + 'a list" where
  "make_slice len zero = (if len < 0 then Inl (Panic ''makeslice: len out of range'') else Inr (replicate (nat len) zero))"

definition copy :: "'a list \<Rightarrow> 'a list \<Rightarrow> 'a list" where
  "copy dst src = take (min (length dst) (length src)) src @ drop (min (length dst) (length src)) dst"

text \<open>
  The tail of \<^verbatim>\<open>addEmptyTopLevelToCompletelyFullSketch\<close>, common to both revisions, from
  the growth-scheme checks on. \<^verbatim>\<open>growLevelsArr\<close> is computed from the \<^emph>\<open>entry\<close>
  \<^verbatim>\<open>myCurLevelsArr[myCurNumLevels+1]\<close>.
\<close>

definition d_addEmptyTop_tail ::
  "DoubleSketch \<Rightarrow> int list \<Rightarrow> int \<Rightarrow> int \<Rightarrow> float64 \<Rightarrow> float64 \<Rightarrow> error + DoubleSketch" where
  "d_addEmptyTop_tail s myCurLevelsArr myCurNumLevels myCurTotalItemsCapacity minDouble maxDouble =
     (let myCurDoubleItemsArr = d_doubleItems s
      in if int (length myCurDoubleItemsArr) \<noteq> myCurTotalItemsCapacity
         then Inl (Err ''assert we are following a certain growth scheme'')
         else bindE (rdi myCurLevelsArr 0) (\<lambda>l0.
           if l0 \<noteq> 0 then Inl (Err ''definition of full is part of the growth scheme'')
           else bindE (helper_levelCapacity (d_k s) (addi myCurNumLevels 1) 0 (d_m s)) (\<lambda>deltaItemsCap.
             let myNewTotalItemsCapacity = addi myCurTotalItemsCapacity deltaItemsCap
             in bindE (rdi myCurLevelsArr (addi myCurNumLevels 1)) (\<lambda>probe.
                  let growLevelsArr = (probe < addi myCurNumLevels 2)
                  in bindE (if growLevelsArr
                            then bindE (make_slice (addi myCurNumLevels 2) 0) (\<lambda>fresh.
                                   Inr (copy fresh myCurLevelsArr, addi myCurNumLevels 1))
                            else Inr (myCurLevelsArr, myCurNumLevels)) (\<lambda>(arr0, myNewNumLevels).
                       bindE (d_addTop_levels_loop myNewNumLevels deltaItemsCap 0 arr0) (\<lambda>arr1.
                       bindE (wri arr1 myNewNumLevels myNewTotalItemsCapacity) (\<lambda>myNewLevelsArr.
                       bindE (make_slice myNewTotalItemsCapacity (Fin 0)) (\<lambda>fresh.
                       bindE (d_addTop_items_loop myCurTotalItemsCapacity deltaItemsCap
                                myCurDoubleItemsArr 0 fresh) (\<lambda>myNewDoubleItemsArr.
                         if d_readOnly s
                         then Inr (s\<lparr>d_minDoubleItem := minDouble, d_maxDoubleItem := maxDouble,
                                     d_doubleItems := myNewDoubleItemsArr\<rparr>)
                         else Inr (s\<lparr>d_levelsArr := myNewLevelsArr,
                                     d_minDoubleItem := minDouble, d_maxDoubleItem := maxDouble,
                                     d_doubleItems := myNewDoubleItemsArr\<rparr>))))))))))"

definition d_addEmptyTopLevelToCompletelyFullSketch :: "DoubleSketch \<Rightarrow> error + DoubleSketch" where
  "d_addEmptyTopLevelToCompletelyFullSketch s =
     bindE (d_getLevelsArray s UPDATABLE) (\<lambda>myCurLevelsArr.
       let myCurNumLevels = d_getNumLevels s
       in bindE (rdi myCurLevelsArr myCurNumLevels) (\<lambda>myCurTotalItemsCapacity.
            bindE (d_GetMinItem s) (\<lambda>minDouble. bindE (d_GetMaxItem s) (\<lambda>maxDouble.
              d_addEmptyTop_tail s myCurLevelsArr myCurNumLevels myCurTotalItemsCapacity
                minDouble maxDouble))))"

definition d_addEmptyTopLevelToCompletelyFullSketch_v0 :: "DoubleSketch \<Rightarrow> error + DoubleSketch" where
  "d_addEmptyTopLevelToCompletelyFullSketch_v0 s =
     bindE (d_getLevelsArray_v0 s UPDATABLE) (\<lambda>myCurLevelsArr.
       let myCurNumLevels = d_getNumLevels s
       in bindE (rdi myCurLevelsArr myCurNumLevels) (\<lambda>myCurTotalItemsCapacity.
            d_addEmptyTop_tail s myCurLevelsArr myCurNumLevels myCurTotalItemsCapacity
              (d_minDoubleItem s) (d_maxDoubleItem s)))"

function d_shift_loop :: "int \<Rightarrow> int \<Rightarrow> int \<Rightarrow> int \<Rightarrow> float64 list \<Rightarrow> error + float64 list" where
  "d_shift_loop amount l0 halfAdjPop i arr =
     (if i < amount then
        bindE (rdi arr (addi l0 i)) (\<lambda>x.
          bindE (wri arr (addi (addi l0 halfAdjPop) i) x) (\<lambda>arr'.
            d_shift_loop amount l0 halfAdjPop (i + 1) arr'))
      else Inr arr)"
  by pat_completeness auto
termination
  by (relation "measure (\<lambda>(amount, l0, halfAdjPop, i, arr). nat (amount - i))") auto

function d_bump_levels_loop :: "int \<Rightarrow> int \<Rightarrow> int \<Rightarrow> int list \<Rightarrow> error + int list" where
  "d_bump_levels_loop level halfAdjPop lvl levels =
     (if lvl < level then
        bindE (rdi levels lvl) (\<lambda>x. bindE (wri levels lvl (addi x halfAdjPop)) (\<lambda>levels'.
          d_bump_levels_loop level halfAdjPop (lvl + 1) levels'))
      else Inr levels)"
  by pat_completeness auto
termination
  by (relation "measure (\<lambda>(level, halfAdjPop, lvl, levels). nat (level - lvl))") auto

text \<open>
  \<^verbatim>\<open>compressWhileUpdatingSketch\<close> of the double sketch; \<open>offset\<close> is the draw of the one
  halving call it makes. \<^verbatim>\<open>myLevelsArr\<close> aliases \<^verbatim>\<open>k.levelsArr\<close>, so every store through
  \<^verbatim>\<open>setLevelsArrayAt\<close> is seen by the later reads of \<^verbatim>\<open>myLevelsArr\<close>. Compacting level 0 is
  the stub \<^verbatim>\<open>panic("implement me")\<close>.
\<close>

definition d_compressWhileUpdatingSketch :: "int \<Rightarrow> DoubleSketch \<Rightarrow> error + DoubleSketch" where
  "d_compressWhileUpdatingSketch offset s =
     bindE (helper_findLevelToCompact (d_k s) (d_m s) (d_getNumLevels s) (d_levelsArr s)) (\<lambda>level.
     bindE (if level = d_getNumLevels s - 1 then d_addEmptyTopLevelToCompletelyFullSketch s else Inr s) (\<lambda>s1.
     let myLevelsArr = d_levelsArr s1
     in bindE (rdi myLevelsArr level) (\<lambda>rawBeg.
        bindE (rdi myLevelsArr (level + 1)) (\<lambda>rawEnd.
        bindE (rdi myLevelsArr (level + 2)) (\<lambda>above.
        let popAbove = subi above rawEnd;
            rawPop = subi rawEnd rawBeg;
            oddPop = (rawPop mod 2 = 1);
            adjBeg = (if oddPop then addi rawBeg 1 else rawBeg);
            adjPop = (if oddPop then subi rawPop 1 else rawPop);
            halfAdjPop = tdiv adjPop 2;
            myDoubleItemsArr = d_doubleItems s1
        in if level = 0 then Inl (Panic ''implement me'')
           else
        bindE (if popAbove = 0 then randomlyHalveUpDoubles offset myDoubleItemsArr adjBeg adjPop
               else bindE (randomlyHalveDownDoubles offset myDoubleItemsArr adjBeg adjPop) (\<lambda>a1.
                    bindE (mergeSortedDoubleArrays (\<lambda>_. a1) 0 adjBeg halfAdjPop 0 rawEnd popAbove
                             0 (addi adjBeg halfAdjPop)) (\<lambda>st. Inr (st 0)))) (\<lambda>arr1.
        bindE (rdi myLevelsArr (level + 1)) (\<lambda>l1.
        bindE (wri myLevelsArr (level + 1) (subi l1 halfAdjPop)) (\<lambda>lv1.
        bindE (rdi lv1 (level + 1)) (\<lambda>l1'.
        bindE (if oddPop
               then bindE (wri lv1 level (subi l1' 1)) (\<lambda>lv2.
                    bindE (rdi lv2 level) (\<lambda>t. bindE (rdi arr1 rawBeg) (\<lambda>v.
                    bindE (wri arr1 t v) (\<lambda>arr2. Inr (lv2, arr2)))))
               else bindE (wri lv1 level l1') (\<lambda>lv2. Inr (lv2, arr1))) (\<lambda>(lv2, arr2).
        bindE (if level > 0
               then bindE (rdi lv2 0) (\<lambda>l0.
                      d_shift_loop (subi rawBeg l0) l0 halfAdjPop 0 arr2)
               else Inr arr2) (\<lambda>arr3.
        bindE (d_bump_levels_loop level halfAdjPop 0 lv2) (\<lambda>lv3.
          Inr (s1\<lparr>d_levelsArr := lv3, d_doubleItems := arr3\<rparr>)))))))))))))"

text \<open>
  \<^verbatim>\<open>updateDouble\<close>, later revision: the new maximum is computed from a second call of
  \<^verbatim>\<open>GetMinItem\<close>. The earlier revision (\<open>updateDouble_v0\<close> below, up to the compaction)
  reads \<^verbatim>\<open>getMaxItem()\<close> there.
\<close>

definition updateDouble_minmax :: "DoubleSketch \<Rightarrow> float64 \<Rightarrow> error + DoubleSketch" where
  "updateDouble_minmax s item =
     (if d_IsEmpty s then Inr (s\<lparr>d_minDoubleItem := item, d_maxDoubleItem := item\<rparr>)
      else bindE (d_GetMinItem s) (\<lambda>mi.
             let s1 = s\<lparr>d_minDoubleItem := math_Min mi item\<rparr>
             in bindE (d_GetMinItem s1) (\<lambda>ma.
                  Inr (s1\<lparr>d_maxDoubleItem := math_Max ma item\<rparr>))))"

definition updateDouble_minmax_v0 :: "DoubleSketch \<Rightarrow> float64 \<Rightarrow> error + DoubleSketch" where
  "updateDouble_minmax_v0 s item =
     (if d_IsEmpty s then Inr (s\<lparr>d_minDoubleItem := item, d_maxDoubleItem := item\<rparr>)
      else let s1 = s\<lparr>d_minDoubleItem := math_Min (d_minDoubleItem s) item\<rparr>
           in Inr (s1\<lparr>d_maxDoubleItem := math_Max (d_maxDoubleItem s1) item\<rparr>))"

definition updateDouble_insert :: "int \<Rightarrow> DoubleSketch \<Rightarrow> float64 \<Rightarrow> error + DoubleSketch" where
  "updateDouble_insert offset s1 item =
     bindE (rdi (d_levelsArr s1) 0) (\<lambda>level0space.
     bindE (if level0space = 0
            then bindE (d_compressWhileUpdatingSketch offset s1) (\<lambda>s2.
                   bindE (rdi (d_levelsArr s2) 0) (\<lambda>l0. Inr (s2, l0)))
            else Inr (s1, level0space)) (\<lambda>(s2, level0space).
       let s3 = s2\<lparr>d_n := addi (d_n s2) 1, d_isLevelZeroSorted := False\<rparr>;
           nextPos = subi level0space 1
       in bindE (wri (d_levelsArr s3) 0 nextPos) (\<lambda>lv.
          bindE (wri (d_doubleItems s3) nextPos item) (\<lambda>its.
            Inr (s3\<lparr>d_levelsArr := lv, d_doubleItems := its\<rparr>)))))"

definition updateDouble :: "int \<Rightarrow> DoubleSketch \<Rightarrow> float64 \<Rightarrow> error + DoubleSketch" where
  "updateDouble offset dblSk item =
     (if IsNaN item then Inr dblSk
      else bindE (updateDouble_minmax dblSk item) (\<lambda>s1. updateDouble_insert offset s1 item))"

definition d_Update :: "int \<Rightarrow> DoubleSketch \<Rightarrow> float64 \<Rightarrow> error + DoubleSketch" where
  "d_Update offset s v =
     (if d_readOnly s then Inl (Err ''Target sketch is Read Only, cannot write. '')
      else updateDouble offset s v)"

fun d_update_all :: "DoubleSketch \<Rightarrow> float64 list \<Rightarrow> error + DoubleSketch" where
  "d_update_all s [] = Inr s"
| "d_update_all s (x # xs) = bindE (d_Update 0 s x) (\<lambda>s'. d_update_all s' xs)"

section \<open>The generic items sketch\<close>

subsection \<open>State\<close>

text \<open>
  \<^verbatim>\<open>ItemSketchOp[C]\<close> is the interface the caller supplies. Two things the code takes from the
  type \<^verbatim>\<open>C\<close> itself are kept with it: \<open>op_zero\<close>, the zero value that \<^verbatim>\<open>make([]C, n)\<close> fills a
  fresh slice with, and \<open>op_IsNil\<close>, the test \<^verbatim>\<open>internal.IsNil\<close> (its source is not among the
  files; it is a parameter).
\<close>

type_synonym byte = "8 word"

record 'a ItemSketchOp =
  op_zero :: 'a
  op_IsNil :: "'a \<Rightarrow> bool"
  op_identity :: 'a
  op_lessFn :: "'a \<Rightarrow> 'a \<Rightarrow> bool"
  op_sizeOf :: "'a \<Rightarrow> int"
  op_sizeOfMany :: "byte list \<Rightarrow> int \<Rightarrow> int \<Rightarrow> error + int"
  op_SerializeManyToSlice :: "'a list \<Rightarrow> byte list"
  op_SerializeOneToSlice :: "'a \<Rightarrow> byte list"
  op_DeserializeFromSlice :: "byte list \<Rightarrow> int \<Rightarrow> int \<Rightarrow> error + 'a list"

text \<open>
  \<^verbatim>\<open>ItemsSketch[C]\<close>: \<open>k\<close>, \<open>minK\<close> are \<^verbatim>\<open>uint16\<close>, \<open>m\<close>, \<open>numLevels\<close> are \<^verbatim>\<open>uint8\<close>, \<open>n\<close> is
  \<^verbatim>\<open>uint64\<close>, the levels are \<^verbatim>\<open>uint32\<close>; \<^verbatim>\<open>minItem\<close> and \<^verbatim>\<open>maxItem\<close> are pointers (\<open>None\<close> is
  \<^verbatim>\<open>nil\<close>). \<open>'v\<close> is the type of the cached sorted view, whose source is not among the files.
\<close>

record ('a, 'v) ItemsSketch =
  s_k :: nat
  s_m :: nat
  s_minK :: nat
  s_numLevels :: nat
  s_isLevelZeroSorted :: bool
  s_n :: nat
  s_levels :: "nat list"
  s_items :: "'a list"
  s_minItem :: "'a option"
  s_maxItem :: "'a option"
  s_sortedView :: "'v option"
  s_itemsSketchOp :: "'a ItemSketchOp"

definition deref :: "'a option \<Rightarrow> error + 'a" where
  "deref p = (case p of None \<Rightarrow> Inl (Panic ''nil pointer dereference'') | Some x \<Rightarrow> Inr x)"

definition NewItemsSketch :: "nat \<Rightarrow> 'a ItemSketchOp \<Rightarrow> error + ('a, 'v) ItemsSketch" where
  "NewItemsSketch k itemsSketchOp =
     (if k < 8 \<or> k > 65535 then Inl (Err ''k must be >= 8 and <= 65535'')
      else Inr \<lparr>s_k = k, s_m = 8, s_minK = k, s_numLevels = 1, s_isLevelZeroSorted = False,
                s_n = 0, s_levels = [k, k], s_items = replicate k (op_zero itemsSketchOp),
                s_minItem = None, s_maxItem = None, s_sortedView = None,
                s_itemsSketchOp = itemsSketchOp\<rparr>)"

definition IsEmpty :: "('a, 'v) ItemsSketch \<Rightarrow> bool" where
  "IsEmpty s = (s_n s = 0)"

definition GetNumRetained :: "('a, 'v) ItemsSketch \<Rightarrow> error + nat" where
  "GetNumRetained s =
     bindE (rd (s_levels s) (s_numLevels s)) (\<lambda>top.
       bindE (rd (s_levels s) 0) (\<lambda>l0. Inr (sub32 top l0)))"

definition IsEstimationMode :: "('a, 'v) ItemsSketch \<Rightarrow> bool" where
  "IsEstimationMode s = (s_numLevels s > 1)"

definition GetTotalItemsArray :: "('a, 'v) ItemsSketch \<Rightarrow> 'a list" where
  "GetTotalItemsArray s =
     (if s_n s = 0 then replicate (s_k s) (op_zero (s_itemsSketchOp s)) else s_items s)"

subsection \<open>Compaction\<close>

text \<open>
  \<^verbatim>\<open>findLevelToCompact\<close> of the items sketch has no bound on \<^verbatim>\<open>level\<close>: it stops at a full
  level or panics on the levels array; a \<^verbatim>\<open>uint8\<close> that reaches 255 without either wraps to 0
  and runs the same round again.
\<close>

function findLevelToCompact_loop :: "nat \<Rightarrow> nat \<Rightarrow> nat \<Rightarrow> nat list \<Rightarrow> nat \<Rightarrow> error + nat" where
  "findLevelToCompact_loop k m numLevels levels level =
     bindE (rd levels (add8 level 1)) (\<lambda>hi. bindE (rd levels level) (\<lambda>lo.
       let pop = sub32 hi lo
       in bindE (levelCapacity k numLevels level m) (\<lambda>capacity.
            if pop \<ge> capacity then Inr level
            else if level < 255 then findLevelToCompact_loop k m numLevels levels (level + 1)
            else Inl Diverges)))"
  by pat_completeness auto
termination
  by (relation "measure (\<lambda>(k, m, numLevels, levels, level). 255 - level)") auto

definition findLevelToCompact :: "nat \<Rightarrow> nat \<Rightarrow> nat \<Rightarrow> nat list \<Rightarrow> error + nat" where
  "findLevelToCompact k m numLevels levels = findLevelToCompact_loop k m numLevels levels 0"

text \<open>
  The loop of \<^verbatim>\<open>addEmptyTopLevelToCompletelyFullSketch\<close> over
  \<^verbatim>\<open>level <= myNewNumLevels-1\<close> in \<^verbatim>\<open>uint8\<close>: with the bound at 255 it cannot leave.
\<close>

function addTop_levels_loop :: "nat \<Rightarrow> nat \<Rightarrow> nat \<Rightarrow> nat list \<Rightarrow> error + nat list" where
  "addTop_levels_loop bound deltaItemsCap level arr =
     (if level \<le> bound then
        bindE (rd arr level) (\<lambda>x. bindE (wr arr level (add32 x deltaItemsCap)) (\<lambda>arr'.
          if level < 255 then addTop_levels_loop bound deltaItemsCap (level + 1) arr'
          else Inl Diverges))
      else Inr arr)"
  by pat_completeness auto
termination
  by (relation "measure (\<lambda>(bound, deltaItemsCap, level, arr). 255 - level)") auto

function addTop_items_loop :: "nat \<Rightarrow> nat \<Rightarrow> 'a list \<Rightarrow> nat \<Rightarrow> 'a list \<Rightarrow> error + 'a list" where
  "addTop_items_loop cap deltaItemsCap cur i new =
     (if i < cap then
        bindE (rd cur i) (\<lambda>x. bindE (wr new (add32 i deltaItemsCap) x) (\<lambda>new'.
          addTop_items_loop cap deltaItemsCap cur (i + 1) new'))
      else Inr new)"
  by pat_completeness auto
termination
  by (relation "measure (\<lambda>(cap, deltaItemsCap, cur, i, new). cap - i)") auto

definition addEmptyTopLevelToCompletelyFullSketch ::
  "('a, 'v) ItemsSketch \<Rightarrow> error + ('a, 'v) ItemsSketch" where
  "addEmptyTopLevelToCompletelyFullSketch s =
     (let myCurLevelsArr = s_levels s;
          myCurNumLevels = s_numLevels s
      in bindE (rd myCurLevelsArr myCurNumLevels) (\<lambda>myCurTotalItemsCapacity.
         let myCurItemsArr = GetTotalItemsArray s
         in bindE (levelCapacity (s_k s) (add8 myCurNumLevels 1) 0 (s_m s)) (\<lambda>deltaItemsCap.
            let myNewTotalItemsCapacity = add32 myCurTotalItemsCapacity deltaItemsCap;
                growLevelsArr = (length myCurLevelsArr < add8 myCurNumLevels 2);
                myNewLevelsArr0 = (if growLevelsArr
                                   then copy (replicate (add8 myCurNumLevels 2) 0) myCurLevelsArr
                                   else myCurLevelsArr);
                myNewNumLevels = (if growLevelsArr then add8 myCurNumLevels 1 else myCurNumLevels)
            in bindE (addTop_levels_loop (sub8 myNewNumLevels 1) deltaItemsCap 0 myNewLevelsArr0) (\<lambda>arr1.
               bindE (wr arr1 myNewNumLevels myNewTotalItemsCapacity) (\<lambda>myNewLevelsArr.
               bindE (addTop_items_loop myCurTotalItemsCapacity deltaItemsCap myCurItemsArr 0
                        (replicate myNewTotalItemsCapacity (op_zero (s_itemsSketchOp s)))) (\<lambda>myNewItemsArr.
                 Inr (s\<lparr>s_numLevels := myNewNumLevels, s_levels := myNewLevelsArr,
                         s_items := myNewItemsArr\<rparr>)))))))"

text \<open>
  \<^verbatim>\<open>sort.Slice\<close> on a sub-slice: the run is replaced by its sorted arrangement. The order
  among items that the comparator does not separate is not fixed by Go; the model inserts
  stably.
\<close>

fun insort_by :: "('a \<Rightarrow> 'a \<Rightarrow> bool) \<Rightarrow> 'a \<Rightarrow> 'a list \<Rightarrow> 'a list" where
  "insort_by lessFn x [] = [x]"
| "insort_by lessFn x (y # ys) = (if lessFn y x then y # insort_by lessFn x ys else x # y # ys)"

definition sort_by :: "('a \<Rightarrow> 'a \<Rightarrow> bool) \<Rightarrow> 'a list \<Rightarrow> 'a list" where
  "sort_by lessFn xs = foldr (insort_by lessFn) xs []"

definition sort_Slice :: "('a \<Rightarrow> 'a \<Rightarrow> bool) \<Rightarrow> 'a list \<Rightarrow> nat \<Rightarrow> nat \<Rightarrow> error + 'a list" where
  "sort_Slice lessFn arr lo hi =
     (if lo \<le> hi \<and> hi \<le> length arr
      then Inr (take lo arr @ sort_by lessFn (take (hi - lo) (drop lo arr)) @ drop hi arr)
      else Inl IndexOutOfRange)"

text \<open>
  The shift of the levels below the compacted one: \<^verbatim>\<open>for i := amount; i > 0; i--\<close>, from the
  end of the run.
\<close>

fun shift_below_loop :: "nat \<Rightarrow> nat \<Rightarrow> nat \<Rightarrow> 'a list \<Rightarrow> error + 'a list" where
  "shift_below_loop l0 halfAdjPop 0 arr = Inr arr"
| "shift_below_loop l0 halfAdjPop (Suc i) arr =
     (let tgtInx = sub32 (add32 (add32 l0 halfAdjPop) (Suc i)) 1;
          stcInx = sub32 (add32 l0 (Suc i)) 1
      in bindE (rd arr stcInx) (\<lambda>x. bindE (wr arr tgtInx x) (\<lambda>arr'.
           shift_below_loop l0 halfAdjPop i arr')))"

function bump_levels_loop :: "nat \<Rightarrow> nat \<Rightarrow> nat \<Rightarrow> nat list \<Rightarrow> error + nat list" where
  "bump_levels_loop level halfAdjPop lvl levels =
     (if lvl < level then
        bindE (rd levels lvl) (\<lambda>x. bindE (wr levels lvl (add32 x halfAdjPop)) (\<lambda>levels'.
          bump_levels_loop level halfAdjPop (lvl + 1) levels'))
      else Inr levels)"
  by pat_completeness auto
termination
  by (relation "measure (\<lambda>(level, halfAdjPop, lvl, levels). level - lvl)") auto

text \<open>
  One halving step on the run \<^verbatim>\<open>[adjBeg, adjBeg + adjPop)\<close> of a buffer, with the level above
  at \<^verbatim>\<open>[rawEnd, rawEnd + popAbove)\<close>: both \<^verbatim>\<open>compressWhileUpdatingSketch\<close> and
  \<^verbatim>\<open>generalItemsCompress\<close> contain it, with the same buffer passed three times to the merge.
\<close>

definition halve_and_merge ::
  "('a \<Rightarrow> 'a \<Rightarrow> bool) \<Rightarrow> 'a list \<Rightarrow> nat \<Rightarrow> nat \<Rightarrow> nat \<Rightarrow> nat \<Rightarrow> nat \<Rightarrow> error + 'a list" where
  "halve_and_merge lessFn arr adjBeg adjPop halfAdjPop rawEnd popAbove =
     (if popAbove = 0 then randomlyHalveUpItems arr adjBeg adjPop
      else bindE (randomlyHalveDownItems arr adjBeg adjPop) (\<lambda>a1.
           bindE (mergeSortedItemsArrays lessFn (\<lambda>_. a1) 0 adjBeg halfAdjPop 0 rawEnd popAbove
                    0 (add32 adjBeg halfAdjPop)) (\<lambda>st. Inr (st 0))))"

text \<open>
  \<^verbatim>\<open>compressWhileUpdatingSketch\<close>. \<^verbatim>\<open>myLevelsArr\<close> is the slice \<^verbatim>\<open>s.levels\<close> itself, so the
  stores to \<^verbatim>\<open>s.levels[...]\<close> are seen by the later reads of \<^verbatim>\<open>myLevelsArr[...]\<close>;
  \<^verbatim>\<open>myItemsArr\<close> is a copy that replaces \<^verbatim>\<open>s.items\<close> at the end.
\<close>

definition compressWhileUpdatingSketch ::
  "('a, 'v) ItemsSketch \<Rightarrow> error + ('a, 'v) ItemsSketch" where
  "compressWhileUpdatingSketch s =
     bindE (findLevelToCompact (s_k s) (s_m s) (s_numLevels s) (s_levels s)) (\<lambda>level.
     bindE (if level = sub8 (s_numLevels s) 1
            then addEmptyTopLevelToCompletelyFullSketch s else Inr s) (\<lambda>s1.
     let myLevelsArr = s_levels s1
     in bindE (rd myLevelsArr level) (\<lambda>rawBeg.
        bindE (rd myLevelsArr (add8 level 1)) (\<lambda>rawEnd.
        bindE (rd myLevelsArr (add8 level 2)) (\<lambda>above.
        let popAbove = sub32 above rawEnd;
            rawPop = sub32 rawEnd rawBeg;
            oddPop = (rawPop mod 2 = 1);
            adjBeg = (if oddPop then add32 rawBeg 1 else rawBeg);
            adjPop = (if oddPop then sub32 rawPop 1 else rawPop);
            halfAdjPop = adjPop div 2;
            lessFn = op_lessFn (s_itemsSketchOp s1);
            myItemsArr = GetTotalItemsArray s1
        in bindE (if level = 0 then sort_Slice lessFn myItemsArr adjBeg (add32 adjBeg adjPop)
                  else Inr myItemsArr) (\<lambda>arr0.
           bindE (halve_and_merge lessFn arr0 adjBeg adjPop halfAdjPop rawEnd popAbove) (\<lambda>arr1.
           bindE (rd myLevelsArr (add8 level 1)) (\<lambda>l1.
           bindE (wr myLevelsArr (add8 level 1) (sub32 l1 halfAdjPop)) (\<lambda>lv1.
           bindE (rd lv1 (add8 level 1)) (\<lambda>l1'.
           bindE (if oddPop
                  then bindE (wr lv1 level (sub32 l1' 1)) (\<lambda>lv2.
                       bindE (rd lv2 level) (\<lambda>t. bindE (rd arr1 rawBeg) (\<lambda>v.
                       bindE (wr arr1 t v) (\<lambda>arr2. Inr (lv2, arr2)))))
                  else bindE (wr lv1 level l1') (\<lambda>lv2. Inr (lv2, arr1))) (\<lambda>(lv2, arr2).
           bindE (if level > 0
                  then bindE (rd lv2 0) (\<lambda>l0.
                         shift_below_loop l0 halfAdjPop (sub32 rawBeg l0) arr2)
                  else Inr arr2) (\<lambda>arr3.
           bindE (bump_levels_loop level halfAdjPop 0 lv2) (\<lambda>lv3.
             Inr (s1\<lparr>s_levels := lv3, s_items := arr3\<rparr>))))))))))))))"

subsection \<open>Update\<close>

definition updateItem ::
  "('a, 'v) ItemsSketch \<Rightarrow> 'a \<Rightarrow> ('a \<Rightarrow> 'a \<Rightarrow> bool) \<Rightarrow> error + ('a, 'v) ItemsSketch" where
  "updateItem s item lessFn =
     (if op_IsNil (s_itemsSketchOp s) item then Inr s
      else
       bindE (if IsEmpty s then Inr (s\<lparr>s_minItem := Some item, s_maxItem := Some item\<rparr>)
              else bindE (deref (s_minItem s)) (\<lambda>mn.
                   let s' = (if lessFn item mn then s\<lparr>s_minItem := Some item\<rparr> else s)
                   in bindE (deref (s_maxItem s')) (\<lambda>mx.
                        Inr (if lessFn mx item then s'\<lparr>s_maxItem := Some item\<rparr> else s')))) (\<lambda>s1.
       bindE (rd (s_levels s1) 0) (\<lambda>level0space.
       bindE (if level0space = 0
              then bindE (compressWhileUpdatingSketch s1) (\<lambda>s2.
                     bindE (rd (s_levels s2) 0) (\<lambda>l0. Inr (s2, l0)))
              else Inr (s1, level0space)) (\<lambda>(s2, level0space).
         let s3 = s2\<lparr>s_n := add64 (s_n s2) 1, s_isLevelZeroSorted := False\<rparr>;
             nextPos = sub32 level0space 1
         in bindE (wr (s_levels s3) 0 nextPos) (\<lambda>lv.
            bindE (wr (s_items s3) nextPos item) (\<lambda>its.
              Inr (s3\<lparr>s_levels := lv, s_items := its\<rparr>)))))))"

definition Update :: "('a, 'v) ItemsSketch \<Rightarrow> 'a \<Rightarrow> error + ('a, 'v) ItemsSketch" where
  "Update s item =
     bindE (updateItem s item (op_lessFn (s_itemsSketchOp s))) (\<lambda>s'.
       Inr (s'\<lparr>s_sortedView := None\<rparr>))"


definition Reset :: "('a, 'v) ItemsSketch \<Rightarrow> ('a, 'v) ItemsSketch" where
  "Reset s = s\<lparr>s_n := 0, s_isLevelZeroSorted := False, s_numLevels := 1,
               s_levels := [s_k s, s_k s], s_minItem := None, s_maxItem := None,
               s_items := replicate (s_k s) (op_zero (s_itemsSketchOp s)), s_sortedView := None\<rparr>"

subsection \<open>Merge\<close>

text \<open>
  Modelled from the spec: \<^verbatim>\<open>currentLevelSizeItems\<close> and \<^verbatim>\<open>getNumRetainedAboveLevelZero\<close>,
  whose sources are not among the files. The specification has the merge add, level by
  level, \<open>levels[l+1] - levels[l]\<close> of each sketch, for the levels the sketch has, and size the
  work buffer by the sum of these for the levels \<open>l \<ge> 1\<close> of the other sketch.
\<close>

definition currentLevelSizeItems :: "nat \<Rightarrow> nat \<Rightarrow> nat list \<Rightarrow> error + nat" where
  "currentLevelSizeItems level numLevels levels =
     (if level \<ge> numLevels then Inr 0
      else bindE (rd levels (level + 1)) (\<lambda>hi. bindE (rd levels level) (\<lambda>lo. Inr (sub32 hi lo))))"

definition getNumRetainedAboveLevelZero :: "nat \<Rightarrow> nat list \<Rightarrow> error + nat" where
  "getNumRetainedAboveLevelZero numLevels levels =
     bindE (rd levels numLevels) (\<lambda>top. bindE (rd levels 1) (\<lambda>l1. Inr (sub32 top l1)))"

text \<open>\<^verbatim>\<open>for i < cnt: dst[dstStart + i] = src[srcStart + i]\<close>, the copy loops of the merge.\<close>

function copy_run :: "'a list \<Rightarrow> nat \<Rightarrow> 'a list \<Rightarrow> nat \<Rightarrow> nat \<Rightarrow> nat \<Rightarrow> error + 'a list" where
  "copy_run src srcStart dst dstStart cnt i =
     (if i < cnt then
        bindE (rd src (add32 srcStart i)) (\<lambda>x. bindE (wr dst (add32 dstStart i) x) (\<lambda>dst'.
          copy_run src srcStart dst' dstStart cnt (i + 1)))
      else Inr dst)"
  by pat_completeness auto
termination
  by (relation "measure (\<lambda>(src, srcStart, dst, dstStart, cnt, i). cnt - i)") auto

text \<open>The same loop inside one buffer (source and destination are the same slice).\<close>

function copy_within :: "'a list \<Rightarrow> nat \<Rightarrow> nat \<Rightarrow> nat \<Rightarrow> nat \<Rightarrow> error + 'a list" where
  "copy_within buf srcStart dstStart cnt i =
     (if i < cnt then
        bindE (rd buf (add32 srcStart i)) (\<lambda>x. bindE (wr buf (add32 dstStart i) x) (\<lambda>buf'.
          copy_within buf' srcStart dstStart cnt (i + 1)))
      else Inr buf)"
  by pat_completeness auto
termination
  by (relation "measure (\<lambda>(buf, srcStart, dstStart, cnt, i). cnt - i)") auto

text \<open>
  \<^verbatim>\<open>populateItemWorkArrays\<close>: \<^verbatim>\<open>workbuf\<close>, \<^verbatim>\<open>myCurItemsArr\<close> and \<^verbatim>\<open>otherItemsArr\<close> are three
  different arrays (the last two are copies made by \<^verbatim>\<open>GetTotalItemsArray\<close>), named 2, 0 and 1
  in the store of the merge of two runs.
\<close>

definition populate_level ::
  "('a \<Rightarrow> 'a \<Rightarrow> bool) \<Rightarrow> nat \<Rightarrow> nat list \<Rightarrow> 'a list \<Rightarrow> nat \<Rightarrow> nat list \<Rightarrow> 'a list \<Rightarrow>
   nat \<Rightarrow> 'a list \<times> nat list \<Rightarrow> error + 'a list \<times> nat list" where
  "populate_level lessFn myCurNumLevels myCurLevelsArr myCurItemsArr
       otherNumLevels otherLevelsArr otherItemsArr lvl w =
     (case w of (workbuf, worklevels) \<Rightarrow>
      bindE (currentLevelSizeItems lvl myCurNumLevels myCurLevelsArr) (\<lambda>selfPop.
      bindE (currentLevelSizeItems lvl otherNumLevels otherLevelsArr) (\<lambda>otherPop.
      bindE (rd worklevels lvl) (\<lambda>wl.
      bindE (wr worklevels (add8 lvl 1) (add32 (add32 wl selfPop) otherPop)) (\<lambda>worklevels'.
        if selfPop > 0 \<and> otherPop = 0 then
          bindE (rd myCurLevelsArr lvl) (\<lambda>src0.
          bindE (copy_run myCurItemsArr src0 workbuf wl selfPop 0) (\<lambda>workbuf'.
            Inr (workbuf', worklevels')))
        else if selfPop = 0 \<and> otherPop > 0 then
          bindE (rd otherLevelsArr lvl) (\<lambda>src0.
          bindE (copy_run otherItemsArr src0 workbuf wl otherPop 0) (\<lambda>workbuf'.
            Inr (workbuf', worklevels')))
        else if selfPop > 0 \<and> otherPop > 0 then
          bindE (rd myCurLevelsArr lvl) (\<lambda>fromA.
          bindE (rd otherLevelsArr lvl) (\<lambda>fromB.
          bindE (mergeSortedItemsArrays lessFn
                   (\<lambda>b. if b = 0 then myCurItemsArr else if b = 1 then otherItemsArr else workbuf)
                   0 fromA selfPop 1 fromB otherPop 2 wl) (\<lambda>st.
            Inr (st 2, worklevels'))))
        else Inr (workbuf, worklevels'))))))"

function populate_levels_loop ::
  "('a \<Rightarrow> 'a \<Rightarrow> bool) \<Rightarrow> nat \<Rightarrow> nat \<Rightarrow> nat list \<Rightarrow> 'a list \<Rightarrow> nat \<Rightarrow> nat list \<Rightarrow> 'a list \<Rightarrow>
   nat \<Rightarrow> 'a list \<times> nat list \<Rightarrow> error + 'a list \<times> nat list" where
  "populate_levels_loop lessFn provisionalNumLevels myCurNumLevels myCurLevelsArr myCurItemsArr
       otherNumLevels otherLevelsArr otherItemsArr lvl w =
     (if lvl < provisionalNumLevels then
        (case populate_level lessFn myCurNumLevels myCurLevelsArr myCurItemsArr
                otherNumLevels otherLevelsArr otherItemsArr lvl w of
           Inl e \<Rightarrow> Inl e
         | Inr w' \<Rightarrow>
             populate_levels_loop lessFn provisionalNumLevels myCurNumLevels myCurLevelsArr
               myCurItemsArr otherNumLevels otherLevelsArr otherItemsArr (lvl + 1) w')
      else Inr w)"
  by pat_completeness auto
termination
  by (relation "measure (\<lambda>(lessFn, provisionalNumLevels, myCurNumLevels, myCurLevelsArr,
        myCurItemsArr, otherNumLevels, otherLevelsArr, otherItemsArr, lvl, w).
        provisionalNumLevels - lvl)") auto

definition populateItemWorkArrays ::
  "'a list \<Rightarrow> nat list \<Rightarrow> nat \<Rightarrow> nat \<Rightarrow> nat list \<Rightarrow> 'a list \<Rightarrow> nat \<Rightarrow> nat list \<Rightarrow> 'a list \<Rightarrow>
   ('a \<Rightarrow> 'a \<Rightarrow> bool) \<Rightarrow> error + 'a list \<times> nat list" where
  "populateItemWorkArrays workbuf worklevels provisionalNumLevels
       myCurNumLevels myCurLevelsArr myCurItemsArr otherNumLevels otherLevelsArr otherItemsArr lessFn =
     bindE (wr worklevels 0 0) (\<lambda>wl0.
     bindE (currentLevelSizeItems 0 myCurNumLevels myCurLevelsArr) (\<lambda>selfPopZero.
     bindE (if selfPopZero > 0
            then bindE (rd myCurLevelsArr 0) (\<lambda>src0. copy_run myCurItemsArr src0 workbuf 0 selfPopZero 0)
            else Inr workbuf) (\<lambda>workbuf1.
     bindE (wr wl0 1 (add32 0 selfPopZero)) (\<lambda>wl1.
       populate_levels_loop lessFn provisionalNumLevels myCurNumLevels myCurLevelsArr myCurItemsArr
         otherNumLevels otherLevelsArr otherItemsArr 1 (workbuf1, wl1)))))"

text \<open>
  \<^verbatim>\<open>generalItemsCompress\<close>. The loop variables are the state \<open>gic_state\<close>; \<^verbatim>\<open>inBuf\<close> and
  \<^verbatim>\<open>outBuf\<close> are names in the store (the merge passes the same buffer for both).
  \<^verbatim>\<open>curLevel\<close> is an \<^verbatim>\<open>int\<close> that starts at \<open>-1\<close> and is incremented at the head of each round.
\<close>

record 'a gic_state =
  g_numLevels :: nat
  g_currentItemCount :: nat
  g_targetItemCount :: nat
  g_curLevel :: int
  g_inLevels :: "nat list"
  g_outLevels :: "nat list"
  g_store :: "'a store"
  g_doneYet :: bool

definition gic_copy_level ::
  "nat \<Rightarrow> nat \<Rightarrow> int \<Rightarrow> nat \<Rightarrow> nat \<Rightarrow> 'a gic_state \<Rightarrow> error + 'a gic_state" where
  "gic_copy_level inBuf outBuf curLevel rawBeg rawPop g =
     bindE (rdi (g_outLevels g) curLevel) (\<lambda>ol.
     bindE (if inBuf = outBuf
            then copy_within (g_store g inBuf) rawBeg ol rawPop 0
            else copy_run (g_store g inBuf) rawBeg (g_store g outBuf) ol rawPop 0) (\<lambda>out'.
     bindE (wri (g_outLevels g) (curLevel + 1) (add32 ol rawPop)) (\<lambda>outLevels'.
       Inr (g\<lparr>g_outLevels := outLevels', g_store := (g_store g)(outBuf := out')\<rparr>))))"

definition gic_compact_level ::
  "nat \<Rightarrow> nat \<Rightarrow> bool \<Rightarrow> ('a \<Rightarrow> 'a \<Rightarrow> bool) \<Rightarrow> nat \<Rightarrow> nat \<Rightarrow> int \<Rightarrow> nat \<Rightarrow> nat \<Rightarrow> nat \<Rightarrow>
   'a gic_state \<Rightarrow> error + 'a gic_state" where
  "gic_compact_level k m isLevelZeroSorted lessFn inBuf outBuf curLevel rawBeg rawLim rawPop g =
     bindE (rdi (g_inLevels g) (curLevel + 2)) (\<lambda>above.
     let popAbove = sub32 above rawLim;
         oddPop = (rawPop mod 2 = 1);
         adjBeg = (if oddPop then add32 rawBeg 1 else rawBeg);
         adjPop = (if oddPop then sub32 rawPop 1 else rawPop);
         halfAdjPop = adjPop div 2
     in bindE (rdi (g_outLevels g) curLevel) (\<lambda>ol.
        bindE (if oddPop
               then bindE (rd (g_store g inBuf) rawBeg) (\<lambda>x.
                    bindE (wr (g_store g outBuf) ol x) (\<lambda>out'.
                    bindE (wri (g_outLevels g) (curLevel + 1) (add32 ol 1)) (\<lambda>outLevels'.
                      Inr ((g_store g)(outBuf := out'), outLevels'))))
               else bindE (wri (g_outLevels g) (curLevel + 1) ol) (\<lambda>outLevels'.
                      Inr (g_store g, outLevels'))) (\<lambda>(st1, outLevels').
        bindE (if curLevel = 0 \<and> \<not> isLevelZeroSorted
               then sort_Slice lessFn (st1 inBuf) adjBeg (add32 adjBeg adjPop)
               else Inr (st1 inBuf)) (\<lambda>in0.
        bindE (halve_and_merge lessFn in0 adjBeg adjPop halfAdjPop rawLim popAbove) (\<lambda>in1.
        bindE (rdi (g_inLevels g) (curLevel + 1)) (\<lambda>il1.
        bindE (wri (g_inLevels g) (curLevel + 1) (sub32 il1 halfAdjPop)) (\<lambda>inLevels'.
        let g1 = g\<lparr>g_currentItemCount := sub32 (g_currentItemCount g) halfAdjPop,
                   g_inLevels := inLevels', g_outLevels := outLevels',
                   g_store := st1(inBuf := in1)\<rparr>
        in if curLevel = int (g_numLevels g) - 1
           then let numLevels' = add8 (g_numLevels g) 1
                in bindE (levelCapacity k numLevels' 0 m) (\<lambda>c.
                     Inr (g1\<lparr>g_numLevels := numLevels',
                              g_targetItemCount := add32 (g_targetItemCount g) c\<rparr>))
           else Inr g1)))))))"

definition gic_step ::
  "nat \<Rightarrow> nat \<Rightarrow> bool \<Rightarrow> ('a \<Rightarrow> 'a \<Rightarrow> bool) \<Rightarrow> nat \<Rightarrow> nat \<Rightarrow> 'a gic_state \<Rightarrow> error + 'a gic_state" where
  "gic_step k m isLevelZeroSorted lessFn inBuf outBuf g0 =
     (let curLevel = g_curLevel g0 + 1
      in bindE (if curLevel = int (g_numLevels g0) - 1
                then bindE (rdi (g_inLevels g0) (curLevel + 1)) (\<lambda>x.
                       wri (g_inLevels g0) (curLevel + 2) x)
                else Inr (g_inLevels g0)) (\<lambda>inLevels0.
         let g = g0\<lparr>g_curLevel := curLevel, g_inLevels := inLevels0\<rparr>
         in bindE (rdi inLevels0 curLevel) (\<lambda>rawBeg.
            bindE (rdi inLevels0 (curLevel + 1)) (\<lambda>rawLim.
            let rawPop = sub32 rawLim rawBeg
            in bindE (if g_currentItemCount g < g_targetItemCount g then Inr True
                      else bindE (levelCapacity k (g_numLevels g) (nat curLevel mod 2 ^ 8) m) (\<lambda>c.
                             Inr (rawPop < c))) (\<lambda>through.
               bindE (if through then gic_copy_level inBuf outBuf curLevel rawBeg rawPop g
                      else gic_compact_level k m isLevelZeroSorted lessFn inBuf outBuf
                             curLevel rawBeg rawLim rawPop g) (\<lambda>g'.
                 Inr (g'\<lparr>g_doneYet := (curLevel = int (g_numLevels g') - 1)\<rparr>)))))))"

function generalItemsCompress_loop ::
  "nat \<Rightarrow> nat \<Rightarrow> bool \<Rightarrow> ('a \<Rightarrow> 'a \<Rightarrow> bool) \<Rightarrow> nat \<Rightarrow> nat \<Rightarrow> 'a gic_state \<Rightarrow> error + 'a gic_state" where
  "generalItemsCompress_loop k m isLevelZeroSorted lessFn inBuf outBuf g =
     (if g_doneYet g then Inr g
      else (case gic_step k m isLevelZeroSorted lessFn inBuf outBuf g of
              Inl e \<Rightarrow> Inl e
            | Inr g' \<Rightarrow> generalItemsCompress_loop k m isLevelZeroSorted lessFn inBuf outBuf g'))"
  by pat_completeness auto
termination
proof (relation "measure (\<lambda>(k, m, z, lessFn, inBuf, outBuf, g).
          if g_doneYet g then 0 else nat (int (length (g_inLevels g)) - g_curLevel g))")
  show "wf (measure (\<lambda>(k, m, z, lessFn, inBuf, outBuf, g).
          if g_doneYet g then 0 else nat (int (length (g_inLevels g)) - g_curLevel g)))"
    by simp
next
  fix k m :: nat and z :: bool and lessFn :: "'a \<Rightarrow> 'a \<Rightarrow> bool" and inBuf outBuf :: nat
    and g g' :: "'a gic_state"
  assume nd: "\<not> g_doneYet g" and st: "gic_step k m z lessFn inBuf outBuf g = Inr g'"
  have bE: "\<And>(r :: error + 'x) (f :: 'x \<Rightarrow> error + 'y) y P.
      bindE r f = Inr y \<Longrightarrow> (\<And>x. r = Inr x \<Longrightarrow> f x = Inr y \<Longrightarrow> P) \<Longrightarrow> P"
    by (simp add: bindE_def split: sum.splits)
  have copy_ok: "\<And>c rb rp (h :: 'a gic_state) h'. gic_copy_level inBuf outBuf c rb rp h = Inr h' \<Longrightarrow>
      g_curLevel h' = g_curLevel h \<and> length (g_inLevels h') = length (g_inLevels h)"
    unfolding gic_copy_level_def by (elim bE) auto
  have compact_ok: "\<And>c rb rl rp (h :: 'a gic_state) h'.
      gic_compact_level k m z lessFn inBuf outBuf c rb rl rp h = Inr h' \<Longrightarrow>
      g_curLevel h' = g_curLevel h \<and> length (g_inLevels h') = length (g_inLevels h)"
    unfolding gic_compact_level_def Let_def
    by (elim bE) (auto simp: wri_def split: if_splits elim!: bE)
  have "g_curLevel g' = g_curLevel g + 1 \<and> length (g_inLevels g') = length (g_inLevels g)
        \<and> g_curLevel g + 1 < int (length (g_inLevels g))"
    using st unfolding gic_step_def Let_def
    apply (elim bE)
    apply (auto simp: rdi_def wri_def split: if_splits dest!: copy_ok compact_ok elim!: bE)
    done
  then show "((k, m, z, lessFn, inBuf, outBuf, g'), (k, m, z, lessFn, inBuf, outBuf, g))
      \<in> measure (\<lambda>(k, m, z, lessFn, inBuf, outBuf, g).
          if g_doneYet g then 0 else nat (int (length (g_inLevels g)) - g_curLevel g))"
    using nd by auto
qed

definition generalItemsCompress ::
  "nat \<Rightarrow> nat \<Rightarrow> nat \<Rightarrow> 'a store \<Rightarrow> nat \<Rightarrow> nat list \<Rightarrow> nat \<Rightarrow> nat list \<Rightarrow> bool \<Rightarrow>
   ('a \<Rightarrow> 'a \<Rightarrow> bool) \<Rightarrow> error + (nat list \<times> 'a gic_state)" where
  "generalItemsCompress k m numLevelsIn st inBuf inLevels outBuf outLevels isLevelZeroSorted lessFn =
     bindE (rd inLevels numLevelsIn) (\<lambda>top. bindE (rd inLevels 0) (\<lambda>l0.
     bindE (computeTotalItemCapacity k m numLevelsIn) (\<lambda>targetItemCount.
     bindE (wr outLevels 0 0) (\<lambda>outLevels0.
     bindE (generalItemsCompress_loop k m isLevelZeroSorted lessFn inBuf outBuf
              \<lparr>g_numLevels = numLevelsIn, g_currentItemCount = sub32 top l0,
               g_targetItemCount = targetItemCount, g_curLevel = -1,
               g_inLevels = inLevels, g_outLevels = outLevels0, g_store = st,
               g_doneYet = False\<rparr>) (\<lambda>g.
       Inr ([g_numLevels g, g_targetItemCount g, g_currentItemCount g], g))))))"

fun merge_level0_loop ::
  "('a, 'v) ItemsSketch \<Rightarrow> 'a list \<Rightarrow> nat \<Rightarrow> nat \<Rightarrow> error + ('a, 'v) ItemsSketch" where
  "merge_level0_loop s otherItemsArr i 0 = Inr s"
| "merge_level0_loop s otherItemsArr i (Suc cnt) =
     bindE (rd otherItemsArr i) (\<lambda>x.
     bindE (updateItem s x (op_lessFn (s_itemsSketchOp s))) (\<lambda>s'.
       merge_level0_loop s' otherItemsArr (i + 1) cnt))"

function merge_new_levels_loop :: "nat \<Rightarrow> nat \<Rightarrow> nat list \<Rightarrow> nat \<Rightarrow> nat list \<Rightarrow> error + nat list" where
  "merge_new_levels_loop bound theShift outlevels lvl arr =
     (if lvl < bound then
        bindE (rd outlevels lvl) (\<lambda>x. bindE (wr arr lvl (add32 x theShift)) (\<lambda>arr'.
          merge_new_levels_loop bound theShift outlevels (lvl + 1) arr'))
      else Inr arr)"
  by pat_completeness auto
termination
  by (relation "measure (\<lambda>(bound, theShift, outlevels, lvl, arr). bound - lvl)") auto

text \<open>
  The part of \<^verbatim>\<open>mergeItemsSketch\<close> under \<^verbatim>\<open>if otherNumLevels > 1\<close>; it yields the new
  \<^verbatim>\<open>numLevels\<close>, levels array and items array. \<open>ubOnNumLevels\<close>, whose source is not among
  the files and for which the specification gives no formula, is a parameter.
\<close>

definition merge_higher_levels ::
  "(nat \<Rightarrow> nat) \<Rightarrow> ('a, 'v) ItemsSketch \<Rightarrow> nat \<Rightarrow> nat \<Rightarrow> nat list \<Rightarrow> 'a list \<Rightarrow>
   error + nat \<times> nat list \<times> 'a list" where
  "merge_higher_levels ubOnNumLevels s finalN otherNumLevels otherLevelsArr otherItemsArr =
     (let myCurNumLevels = s_numLevels s;
          myCurLevelsArr = s_levels s;
          myCurItemsArr = GetTotalItemsArray s;
          lessFn = op_lessFn (s_itemsSketchOp s);
          zero = op_zero (s_itemsSketchOp s)
      in bindE (GetNumRetained s) (\<lambda>ret.
         bindE (getNumRetainedAboveLevelZero otherNumLevels otherLevelsArr) (\<lambda>above.
         let tmpSpaceNeeded = add32 ret above;
             workbuf = replicate tmpSpaceNeeded zero;
             ub = ubOnNumLevels finalN;
             worklevels = replicate (ub + 2) 0;
             outlevels = replicate (ub + 2) 0;
             provisionalNumLevels = max myCurNumLevels otherNumLevels
         in bindE (populateItemWorkArrays workbuf worklevels provisionalNumLevels
                     myCurNumLevels myCurLevelsArr myCurItemsArr
                     otherNumLevels otherLevelsArr otherItemsArr lessFn) (\<lambda>(workbuf1, worklevels1).
            bindE (generalItemsCompress (s_k s) (s_m s) provisionalNumLevels (\<lambda>_. workbuf1) 0
                     worklevels1 0 outlevels (s_isLevelZeroSorted s) lessFn) (\<lambda>(result, g).
            let targetItemCount = result ! 1;
                curItemCount = result ! 2;
                myNewNumLevels = (result ! 0) mod 2 ^ 8;
                workbuf2 = g_store g 0;
                outlevels2 = g_outLevels g;
                myNewItemsArr0 = (if targetItemCount = length myCurItemsArr then myCurItemsArr
                                  else replicate targetItemCount zero);
                freeSpaceAtBottom = sub32 targetItemCount curItemCount
            in bindE (if curItemCount > 0
                      then bindE (rd outlevels2 0) (\<lambda>o0.
                             copy_run workbuf2 o0 myNewItemsArr0 freeSpaceAtBottom curItemCount 0)
                      else Inr myNewItemsArr0) (\<lambda>myNewItemsArr.
               bindE (rd outlevels2 0) (\<lambda>o0.
               let theShift = sub32 freeSpaceAtBottom o0;
                   finalLevelsArrLen = (if length myCurLevelsArr mod 2 ^ 32 < add8 myNewNumLevels 1
                                        then add8 myNewNumLevels 1
                                        else length myCurLevelsArr mod 2 ^ 32)
               in bindE (merge_new_levels_loop (add8 myNewNumLevels 1) theShift outlevels2 0
                           (replicate finalLevelsArrLen 0)) (\<lambda>myNewLevelsArr.
                    Inr (myNewNumLevels, myNewLevelsArr, myNewItemsArr)))))))))"

definition mergeItemsSketch ::
  "(nat \<Rightarrow> nat) \<Rightarrow> ('a, 'v) ItemsSketch \<Rightarrow> ('a, 'v) ItemsSketch \<Rightarrow> error + ('a, 'v) ItemsSketch" where
  "mergeItemsSketch ubOnNumLevels s other =
     (if IsEmpty other then Inr s
      else
       let myEmpty = IsEmpty s
       in bindE (if \<not> myEmpty
                 then bindE (deref (s_minItem s)) (\<lambda>mn. bindE (deref (s_maxItem s)) (\<lambda>mx.
                        Inr (mn, mx)))
                 else Inr (op_zero (s_itemsSketchOp s), op_zero (s_itemsSketchOp s))) (\<lambda>(myMin, myMax).
          let myMinK = s_minK s;
              finalN = add64 (s_n s) (s_n other);
              otherNumLevels = s_numLevels other;
              otherLevelsArr = s_levels other;
              otherItemsArr = GetTotalItemsArray other
          in bindE (rd otherLevelsArr 0) (\<lambda>o0. bindE (rd otherLevelsArr 1) (\<lambda>o1.
             bindE (merge_level0_loop s otherItemsArr o0 (o1 - o0)) (\<lambda>s1.
             bindE (if otherNumLevels > 1
                    then merge_higher_levels ubOnNumLevels s1 finalN otherNumLevels
                           otherLevelsArr otherItemsArr
                    else Inr (s_numLevels s1, s_levels s1, GetTotalItemsArray s1))
               (\<lambda>(myNewNumLevels, myNewLevelsArr, myNewItemsArr).
             let s2 = s1\<lparr>s_n := finalN,
                        s_minK := (if IsEstimationMode other then min myMinK (s_minK other)
                                   else s_minK s1),
                        s_numLevels := myNewNumLevels, s_levels := myNewLevelsArr,
                        s_items := myNewItemsArr\<rparr>
             in if myEmpty
                then Inr (s2\<lparr>s_minItem := s_minItem other, s_maxItem := s_maxItem other\<rparr>)
                else bindE (deref (s_minItem other)) (\<lambda>omn.
                     bindE (deref (s_maxItem other)) (\<lambda>omx.
                       Inr (s2\<lparr>s_minItem := (if op_lessFn (s_itemsSketchOp s2) myMin omn
                                               then Some myMin else s_minItem other),
                               s_maxItem := (if op_lessFn (s_itemsSketchOp s2) omx myMax
                                               then Some myMax else s_maxItem other)\<rparr>)))))))))"

definition Merge ::
  "(nat \<Rightarrow> nat) \<Rightarrow> ('a, 'v) ItemsSketch \<Rightarrow> ('a, 'v) ItemsSketch \<Rightarrow> error + ('a, 'v) ItemsSketch" where
  "Merge ubOnNumLevels s other =
     (if IsEmpty other then Inr s
      else bindE (mergeItemsSketch ubOnNumLevels s other) (\<lambda>s'. Inr (s'\<lparr>s_sortedView := None\<rparr>)))"

subsection \<open>Queries\<close>

text \<open>
  The sorted view of the items sketch (\<^verbatim>\<open>ItemsSketchSortedView\<close>, its constructor and its
  methods) is not among the sources: the queries take it as the parameter \<open>vo\<close>. The
  constructor gets the sketch by pointer, so it returns the sketch as well. A query returns
  its result together with the sketch it leaves behind, since \<^verbatim>\<open>setupSortedView\<close> stores the view.
\<close>

record ('a, 'v, 'p) viewOps =
  vo_new :: "('a, 'v) ItemsSketch \<Rightarrow> (error + 'v) \<times> ('a, 'v) ItemsSketch"
  vo_GetRank :: "'v \<Rightarrow> 'a \<Rightarrow> bool \<Rightarrow> error + float64"
  vo_GetQuantile :: "'v \<Rightarrow> float64 \<Rightarrow> bool \<Rightarrow> error + 'a"
  vo_GetPMF :: "'v \<Rightarrow> 'a list \<Rightarrow> bool \<Rightarrow> error + float64 list"
  vo_GetCDF :: "'v \<Rightarrow> 'a list \<Rightarrow> bool \<Rightarrow> error + float64 list"
  vo_GetPartitionBoundaries :: "'v \<Rightarrow> int \<Rightarrow> bool \<Rightarrow> error + 'p"

definition empty_msg :: string where
  "empty_msg = ''operation is undefined for an empty sketch''"

definition GetMinItem :: "('a, 'v) ItemsSketch \<Rightarrow> error + 'a" where
  "GetMinItem s = (if IsEmpty s then Inl (Err empty_msg) else deref (s_minItem s))"

definition GetMaxItem :: "('a, 'v) ItemsSketch \<Rightarrow> error + 'a" where
  "GetMaxItem s = (if IsEmpty s then Inl (Err empty_msg) else deref (s_maxItem s))"

definition setupSortedView ::
  "('a, 'v, 'p) viewOps \<Rightarrow> ('a, 'v) ItemsSketch \<Rightarrow> (error + 'v) \<times> ('a, 'v) ItemsSketch" where
  "setupSortedView vo s =
     (case s_sortedView s of
        Some v \<Rightarrow> (Inr v, s)
      | None \<Rightarrow> (case vo_new vo s of
                   (Inl e, s') \<Rightarrow> (Inl e, s')
                 | (Inr v, s') \<Rightarrow> (Inr v, s'\<lparr>s_sortedView := Some v\<rparr>)))"

text \<open>The common shape of the view queries: empty check, view set-up, call on the view.\<close>

definition with_view ::
  "('a, 'v, 'p) viewOps \<Rightarrow> ('a, 'v) ItemsSketch \<Rightarrow> ('v \<Rightarrow> error + 'r) \<Rightarrow>
   (error + 'r) \<times> ('a, 'v) ItemsSketch" where
  "with_view vo s q =
     (case setupSortedView vo s of
        (Inl e, s') \<Rightarrow> (Inl e, s')
      | (Inr v, s') \<Rightarrow> (q v, s'))"

definition GetRank ::
  "('a, 'v, 'p) viewOps \<Rightarrow> ('a, 'v) ItemsSketch \<Rightarrow> 'a \<Rightarrow> bool \<Rightarrow>
   (error + float64) \<times> ('a, 'v) ItemsSketch" where
  "GetRank vo s item inclusive =
     (if IsEmpty s then (Inl (Err empty_msg), s)
      else with_view vo s (\<lambda>v. vo_GetRank vo v item inclusive))"

fun map_until_error :: "('x \<Rightarrow> error + 'y) \<Rightarrow> 'x list \<Rightarrow> error + 'y list" where
  "map_until_error f [] = Inr []"
| "map_until_error f (x # xs) =
     bindE (f x) (\<lambda>y. bindE (map_until_error f xs) (\<lambda>ys. Inr (y # ys)))"

definition GetRanks ::
  "('a, 'v, 'p) viewOps \<Rightarrow> ('a, 'v) ItemsSketch \<Rightarrow> 'a list \<Rightarrow> bool \<Rightarrow>
   (error + float64 list) \<times> ('a, 'v) ItemsSketch" where
  "GetRanks vo s item inclusive =
     (if IsEmpty s then (Inl (Err empty_msg), s)
      else with_view vo s (\<lambda>v. map_until_error (\<lambda>x. vo_GetRank vo v x inclusive) item))"

definition GetQuantile ::
  "('a, 'v, 'p) viewOps \<Rightarrow> ('a, 'v) ItemsSketch \<Rightarrow> float64 \<Rightarrow> bool \<Rightarrow>
   (error + 'a) \<times> ('a, 'v) ItemsSketch" where
  "GetQuantile vo s rank inclusive =
     (if IsEmpty s then (Inl (Err empty_msg), s)
      else if flt rank (Fin 0) \<or> flt (Fin 1) rank
      then (Inl (Err ''normalized rank cannot be less than zero or greater than 1.0''), s)
      else with_view vo s (\<lambda>v. vo_GetQuantile vo v rank inclusive))"

definition GetQuantiles ::
  "('a, 'v, 'p) viewOps \<Rightarrow> ('a, 'v) ItemsSketch \<Rightarrow> float64 list \<Rightarrow> bool \<Rightarrow>
   (error + 'a list) \<times> ('a, 'v) ItemsSketch" where
  "GetQuantiles vo s ranks inclusive =
     (if IsEmpty s then (Inl (Err empty_msg), s)
      else with_view vo s (\<lambda>v. map_until_error (\<lambda>r. vo_GetQuantile vo v r inclusive) ranks))"

definition GetPMF ::
  "('a, 'v, 'p) viewOps \<Rightarrow> ('a, 'v) ItemsSketch \<Rightarrow> 'a list \<Rightarrow> bool \<Rightarrow>
   (error + float64 list) \<times> ('a, 'v) ItemsSketch" where
  "GetPMF vo s splitPoints inclusive =
     (if IsEmpty s then (Inl (Err empty_msg), s)
      else with_view vo s (\<lambda>v. vo_GetPMF vo v splitPoints inclusive))"

definition GetCDF ::
  "('a, 'v, 'p) viewOps \<Rightarrow> ('a, 'v) ItemsSketch \<Rightarrow> 'a list \<Rightarrow> bool \<Rightarrow>
   (error + float64 list) \<times> ('a, 'v) ItemsSketch" where
  "GetCDF vo s splitPoints inclusive =
     (if IsEmpty s then (Inl (Err empty_msg), s)
      else with_view vo s (\<lambda>v. vo_GetCDF vo v splitPoints inclusive))"

definition GetPartitionBoundaries ::
  "('a, 'v, 'p) viewOps \<Rightarrow> ('a, 'v) ItemsSketch \<Rightarrow> int \<Rightarrow> bool \<Rightarrow>
   (error + 'p) \<times> ('a, 'v) ItemsSketch" where
  "GetPartitionBoundaries vo s numEquallySized inclusive =
     (if IsEmpty s then (Inl (Err empty_msg), s)
      else with_view vo s (\<lambda>v. vo_GetPartitionBoundaries vo v numEquallySized inclusive))"

definition GetSortedView ::
  "('a, 'v, 'p) viewOps \<Rightarrow> ('a, 'v) ItemsSketch \<Rightarrow> (error + 'v) \<times> ('a, 'v) ItemsSketch" where
  "GetSortedView vo s =
     (if IsEmpty s then (Inl (Err empty_msg), s)
      else with_view vo s (\<lambda>v. Inr v))"

subsection \<open>Serialization\<close>




text \<open>Little-endian stores and loads of \<^verbatim>\<open>encoding/binary\<close>, and \<^verbatim>\<open>copy\<close> into a tail of a slice.\<close>

definition le_bytes :: "nat \<Rightarrow> nat \<Rightarrow> byte list" where
  "le_bytes w v = map (\<lambda>i. of_nat ((v div 256 ^ i) mod 256)) [0..<w]"

definition le_value :: "byte list \<Rightarrow> nat" where
  "le_value bs = foldr (\<lambda>b acc. unat b + 256 * acc) bs 0"


definition get_le :: "nat \<Rightarrow> byte list \<Rightarrow> nat \<Rightarrow> error + nat" where
  "get_le w bytes off =
     (if off + w \<le> length bytes then Inr (le_value (take w (drop off bytes)))
      else Inl IndexOutOfRange)"

















subsection \<open>The string operations of the test file\<close>

text \<open>
  \<^verbatim>\<open>stringItemsSketchOp\<close>, the \<^verbatim>\<open>ItemSketchOp[string]\<close> the repository's tests use. A Go string
  is its bytes; \<^verbatim>\<open>a < b\<close> compares them lexicographically. A string is never nil.
  Modelled from the spec: \<^verbatim>\<open>checkBounds\<close>, whose source is not among the files, is the test
  that a request of \<open>reqLen\<close> bytes at \<open>reqOff\<close> lies inside \<open>allocSize\<close> bytes.
\<close>

fun bytes_less :: "byte list \<Rightarrow> byte list \<Rightarrow> bool" where
  "bytes_less [] [] = False"
| "bytes_less [] (y # ys) = True"
| "bytes_less (x # xs) [] = False"
| "bytes_less (x # xs) (y # ys) = (x < y \<or> (x = y \<and> bytes_less xs ys))"

definition checkBounds :: "int \<Rightarrow> int \<Rightarrow> int \<Rightarrow> bool" where
  "checkBounds reqOff reqLen allocSize =
     (0 \<le> reqOff \<and> 0 \<le> reqLen \<and> reqOff + reqLen \<le> allocSize)"

definition string_sizeOf :: "byte list \<Rightarrow> int" where
  "string_sizeOf item = (if length item = 0 then 4 else int (length item) + 4)"

definition string_SerializeOneToSlice :: "byte list \<Rightarrow> byte list" where
  "string_SerializeOneToSlice item =
     (if length item = 0 then [] else le_bytes 4 (length item mod 2 ^ 32) @ item)"

definition string_SerializeManyToSlice :: "byte list list \<Rightarrow> byte list" where
  "string_SerializeManyToSlice item =
     concat (map (\<lambda>x. le_bytes 4 (length x mod 2 ^ 32) @ x) item)"

fun string_sizeOfMany_loop :: "byte list \<Rightarrow> int \<Rightarrow> nat \<Rightarrow> error + int" where
  "string_sizeOfMany_loop mem offset 0 = Inr offset"
| "string_sizeOfMany_loop mem offset (Suc i) =
     (if \<not> checkBounds offset 4 (int (length mem)) then Inl (Err ''offset out of bounds'')
      else let itemLenBytes = int (le_value (take 4 (drop (nat offset) mem)))
           in if offset + 4 + itemLenBytes > int (length mem) then Inl (Err ''offset out of bounds'')
              else string_sizeOfMany_loop mem (offset + 4 + itemLenBytes) i)"

definition string_sizeOfMany :: "byte list \<Rightarrow> int \<Rightarrow> int \<Rightarrow> error + int" where
  "string_sizeOfMany mem offsetBytes numItems =
     (if numItems \<le> 0 then Inr 0
      else bindE (string_sizeOfMany_loop mem offsetBytes (nat numItems)) (\<lambda>offset.
             Inr (offset - offsetBytes)))"

fun string_Deserialize_loop :: "byte list \<Rightarrow> int \<Rightarrow> nat \<Rightarrow> error + byte list list" where
  "string_Deserialize_loop mem offset 0 = Inr []"
| "string_Deserialize_loop mem offset (Suc i) =
     (if \<not> checkBounds offset 4 (int (length mem)) then Inl (Err ''offset out of bounds'')
      else let strLength = int (le_value (take 4 (drop (nat offset) mem)))
           in if \<not> checkBounds (offset + 4) strLength (int (length mem))
              then Inl (Err ''offset out of bounds'')
              else bindE (string_Deserialize_loop mem (offset + 4 + strLength) i) (\<lambda>rest.
                     Inr (take (nat strLength) (drop (nat (offset + 4)) mem) # rest)))"

definition string_DeserializeFromSlice :: "byte list \<Rightarrow> int \<Rightarrow> int \<Rightarrow> error + byte list list" where
  "string_DeserializeFromSlice mem offsetBytes numItems =
     (if numItems \<le> 0 then Inr [] else string_Deserialize_loop mem offsetBytes (nat numItems))"

definition stringItemsSketchOp :: "byte list ItemSketchOp" where
  "stringItemsSketchOp =
     \<lparr>op_zero = [], op_IsNil = (\<lambda>_. False), op_identity = [], op_lessFn = bytes_less,
      op_sizeOf = string_sizeOf, op_sizeOfMany = string_sizeOfMany,
      op_SerializeManyToSlice = string_SerializeManyToSlice,
      op_SerializeOneToSlice = string_SerializeOneToSlice,
      op_DeserializeFromSlice = string_DeserializeFromSlice\<rparr>"

text \<open>
  A stand-in for the sorted-view code that is not among the sources, for running the
  queries: every operation of it fails.
\<close>

definition no_view :: "(byte list, unit, unit) viewOps" where
  "no_view =
     \<lparr>vo_new = (\<lambda>s. (Inl (Panic ''not implemented''), s)),
      vo_GetRank = (\<lambda>v item inclusive. Inl (Panic ''not implemented'')),
      vo_GetQuantile = (\<lambda>v rank inclusive. Inl (Panic ''not implemented'')),
      vo_GetPMF = (\<lambda>v splitPoints inclusive. Inl (Panic ''not implemented'')),
      vo_GetCDF = (\<lambda>v splitPoints inclusive. Inl (Panic ''not implemented'')),
      vo_GetPartitionBoundaries = (\<lambda>v numEquallySized inclusive. Inl (Panic ''not implemented''))\<rparr>"

subsection \<open>A sketch with the largest power of two as K\<close>


section \<open>Theorems\<close>

subsection \<open>Level capacities\<close>

lemma powersOfThree_map: "powersOfThree = map (\<lambda>d. 3 ^ d) [0..<31]"
  unfolding powersOfThree_def
  by (simp add: upt_rec[of _ "numeral _"] upt_rec[of 0] upt_rec[of "Suc _"])

lemma rd_powersOfThree: "d \<le> 30 \<Longrightarrow> rd powersOfThree d = Inr (3 ^ d)"
  by (simp add: rd_def powersOfThree_map del: upt_Suc)

lemma scaled_le: "(2 * k * 2 ^ d) div 3 ^ d \<le> 2 * (k::nat)"
proof -
  have "(2::nat) ^ d \<le> 3 ^ d" by (rule power_mono) simp_all
  then have "2 * k * 2 ^ d \<le> 2 * k * 3 ^ d" by simp
  then have "(2 * k * 2 ^ d) div 3 ^ d \<le> (2 * k * 3 ^ d) div 3 ^ d" by (rule div_le_mono)
  then show ?thesis by simp
qed

lemma round_cap_le: "round_cap k d \<le> k"
  using scaled_le[of k d] by (simp add: round_cap_def)

lemma two_step_cap_le: "two_step_cap k d \<le> k"
  using round_cap_le[of k d] round_cap_le[of "round_cap k (d div 2)" "d - d div 2"] round_cap_le[of k "d div 2"]
  by (simp add: two_step_cap_def)

lemma sub8_eq: "b \<le> a \<Longrightarrow> a < 256 \<Longrightarrow> sub8 a b = a - b"
proof -
  assume h: "b \<le> a" "a < 256"
  then have "a + 2 ^ 8 - b mod 2 ^ 8 = (a - b) + 256" by simp
  then have "sub8 a b = ((a - b) + 256) mod 256" by (simp add: sub8_def)
  also have "\<dots> = (a - b) mod 256" by (rule mod_add_self2)
  also have "\<dots> = a - b" using h by (intro mod_less) arith
  finally show ?thesis .
qed

lemma shifted_small: assumes "k < 32768" "d \<le> 30" shows "2 * k * 2 ^ d < (2::nat) ^ 64"
proof -
  have "(2::nat) ^ d \<le> 2 ^ 30" using assms by (intro power_increasing) simp_all
  then have "2 * k * 2 ^ d \<le> 2 * k * 2 ^ 30" by simp
  also have "\<dots> < 2 ^ 64" using assms by simp
  finally show ?thesis .
qed

lemma intCapAuxAux_eq:
  assumes "k < 32768" "d \<le> 30"
  shows "intCapAuxAux k d = Inr (round_cap k d)"
proof -
  have a: "(k * 2) mod 2 ^ 16 = 2 * k" using assms by simp
  have b: "(2 * k * 2 ^ d) mod 2 ^ 64 = 2 * k * 2 ^ d"
    using shifted_small[OF assms] by simp
  have c: "(2 * k * 2 ^ d) div 3 ^ d + 1 < 2 ^ 64"
    using scaled_le[of k d] assms by simp
  have d: "round_cap k d < 2 ^ 32" using round_cap_le[of k d] assms by simp
  have "intCapAuxAux k d =
      (let tmp = ((2 * k * 2 ^ d) mod 2 ^ 64) div 3 ^ d;
           result = ((tmp + 1) mod 2 ^ 64) div 2
       in if result \<le> k then Inr (result mod 2 ^ 32) else Inr k)"
    unfolding intCapAuxAux_def Let_def a rd_powersOfThree[OF assms(2)] bindE_def by simp
  also have "\<dots> = (let result = ((2 * k * 2 ^ d) div 3 ^ d + 1) div 2
       in if result \<le> k then Inr (result mod 2 ^ 32) else Inr k)"
    unfolding Let_def b mod_less[OF c] ..
  also have "\<dots> = Inr (round_cap k d)"
    using round_cap_le[of k d] mod_less[OF d] unfolding round_cap_def Let_def by simp
  finally show ?thesis .
qed

lemma intCapAux_eq:
  assumes "k < 32768" "d \<le> 60"
  shows "intCapAux k d = Inr (two_step_cap k d)"
proof (cases "d \<le> 30")
  case True
  then show ?thesis using assms by (simp add: intCapAux_def two_step_cap_def intCapAuxAux_eq)
next
  case False
  have h: "d div 2 \<le> 30" "d - d div 2 \<le> 30" using assms by auto
  have s: "sub8 d (d div 2) = d - d div 2" using assms by (intro sub8_eq) simp_all
  have r: "round_cap k (d div 2) < 32768" using round_cap_le[of k "d div 2"] assms by simp
  then have r16: "round_cap k (d div 2) mod 2 ^ 16 = round_cap k (d div 2)" by simp
  have "intCapAux k d = intCapAuxAux (round_cap k (d div 2) mod 2 ^ 16) (d - d div 2)"
    using False unfolding intCapAux_def Let_def s intCapAuxAux_eq[OF assms(1) h(1)]
    by (simp add: bindE_def)
  also have "\<dots> = Inr (round_cap (round_cap k (d div 2)) (d - d div 2))"
    unfolding r16 by (rule intCapAuxAux_eq[OF r h(2)])
  finally show ?thesis using False by (simp add: two_step_cap_def)
qed

lemma depth_eq:
  assumes "level < numLevels" "numLevels \<le> 61"
  shows "sub8 (sub8 numLevels level) 1 = numLevels - level - 1"
proof -
  have "sub8 numLevels level = numLevels - level" using assms by (intro sub8_eq) simp_all
  moreover have "sub8 (numLevels - level) 1 = numLevels - level - 1"
    using assms by (intro sub8_eq) simp_all
  ultimately show ?thesis by simp
qed

lemma levelCapacity_eq:
  assumes "k < 32768" "level < numLevels" "numLevels \<le> 61"
  shows "levelCapacity k numLevels level m = Inr (max m (two_step_cap k (numLevels - level - 1)))"
proof -
  have "numLevels - level - 1 \<le> 60" using assms by simp
  then show ?thesis
    unfolding levelCapacity_def depth_eq[OF assms(2,3)] Let_def
    by (simp add: intCapAux_eq[OF assms(1)] bindE_def)
qed

lemma s64_id: "- (2 ^ 63) \<le> x \<Longrightarrow> x < 2 ^ 63 \<Longrightarrow> s64 x = x"
  by (simp add: s64_def)

lemma tdiv_nonneg: "0 \<le> a \<Longrightarrow> 0 < b \<Longrightarrow> tdiv a b = a div b"
  by (cases "a = 0") (simp_all add: tdiv_def)

lemma helper_intCapAuxAux_eq:
  assumes "k \<le> 65535" "d \<le> 30"
  shows "helper_intCapAuxAux (int k) (int d) = Inr (int (round_cap k d))"
proof -
  have "(2::nat) ^ d \<le> 2 ^ 30" using assms by (intro power_increasing) simp_all
  then have "2 * k * 2 ^ d \<le> 2 * k * 2 ^ 30" by simp
  also have "\<dots> < 2 ^ 63" using assms by simp
  finally have sm: "2 * k * 2 ^ d < (2::nat) ^ 63" .
  then have "int (2 * k * 2 ^ d) < int (2 ^ 63)" by (simp only: of_nat_less_iff)
  then have sm': "int k * 2 * 2 ^ d < 2 ^ 63" by (simp add: mult.commute)
  have a: "s64 (int k * 2) = int k * 2" using assms by (intro s64_id) simp_all
  have nn: "- (2 ^ 63) \<le> int k * 2 * 2 ^ d"
  proof -
    have "(0::int) \<le> int k * 2 * 2 ^ d" by simp
    moreover have "- (2 ^ 63) \<le> (0::int)" by simp
    ultimately show ?thesis by (rule order_trans[rotated])
  qed
  have b: "s64 (int k * 2 * 2 ^ d) = int k * 2 * 2 ^ d"
    using nn sm' by (rule s64_id)
  have t: "tdiv (int k * 2 * 2 ^ d) (int (3 ^ d)) = int ((2 * k * 2 ^ d) div 3 ^ d)"
    by (subst tdiv_nonneg) (simp_all add: zdiv_int mult.commute mult.left_commute)
  have c: "s64 (int ((2 * k * 2 ^ d) div 3 ^ d) + 1) = int ((2 * k * 2 ^ d) div 3 ^ d) + 1"
    using scaled_le[of k d] assms by (intro s64_id) simp_all
  have e: "(int ((2 * k * 2 ^ d) div 3 ^ d) + 1) div 2 = int (round_cap k d)"
    by (simp add: round_cap_def zdiv_int)
  show ?thesis
    using round_cap_le[of k d] assms(2)
    by (simp add: helper_intCapAuxAux_def Let_def a b t rd_powersOfThree[OF assms(2)] bindE_def c e
        del: of_nat_power of_nat_mult of_nat_add)
qed


lemma helper_intCapAux_eq:
  assumes "k \<le> 65535" "d \<le> 60"
  shows "helper_intCapAux (int k) (int d) = Inr (int (two_step_cap k d))"
proof (cases "d \<le> 30")
  case True
  then show ?thesis using assms by (simp add: helper_intCapAux_def two_step_cap_def helper_intCapAuxAux_eq)
next
  case False
  have h: "d div 2 \<le> 30" "d - d div 2 \<le> 30" using assms by auto
  have half: "tdiv (int d) 2 = int (d div 2)" by (simp add: tdiv_nonneg zdiv_int)
  have rest: "int d - int (d div 2) = int (d - d div 2)" by simp
  have r: "round_cap k (d div 2) \<le> 65535" using round_cap_le[of k "d div 2"] assms by simp
  have "helper_intCapAux (int k) (int d) = helper_intCapAuxAux (int (round_cap k (d div 2))) (int (d - d div 2))"
    using False unfolding helper_intCapAux_def Let_def half rest helper_intCapAuxAux_eq[OF assms(1) h(1)]
    by (simp add: bindE_def)
  also have "\<dots> = Inr (int (round_cap (round_cap k (d div 2)) (d - d div 2)))"
    by (rule helper_intCapAuxAux_eq[OF r h(2)])
  finally show ?thesis using False by (simp add: two_step_cap_def)
qed

lemma helper_levelCapacity_eq:
  assumes "k \<le> 65535" "level < numLevels" "numLevels \<le> 61"
  shows "helper_levelCapacity (int k) (int numLevels) (int level) (int m)
         = Inr (int (max m (two_step_cap k (numLevels - level - 1))))"
proof -
  have d: "numLevels - level - 1 \<le> 60" using assms by simp
  have e: "int numLevels - int level - 1 = int (numLevels - level - 1)" using assms by simp
  have k: "\<not> int k > 2 ^ 29" using assms by simp
  show ?thesis
    using assms k unfolding helper_levelCapacity_def e Let_def helper_intCapAux_eq[OF assms(1) d]
    by (simp add: bindE_def)
qed

text \<open>
  C4, as amended. For \<open>level < numLevels \<le> 61\<close> the capacity of a level is
  \<open>max(M, c)\<close> where, with \<open>depth = numLevels - level - 1\<close>, \<open>c\<close> is \<open>K \<sqdot> (2/3)^depth\<close>
  rounded by the integer rule \<open>((2K \<sqdot> 2^depth) div 3^depth + 1) div 2\<close> for \<open>depth \<le> 30\<close>,
  and that rule applied twice (to \<open>depth div 2\<close>, then with the result in place of \<open>K\<close> to the
  rest) beyond; \<open>c \<le> K\<close>, so the clamp never fires. The helper file computes this for
  every \<open>K \<le> 65535\<close>; the items sketch for every \<open>K < 32768\<close>, where its 16-bit
  \<^verbatim>\<open>k << 1\<close> does not wrap.
\<close>

theorem levelCapacity_rounds:
  assumes "k \<le> 65535" and "level < numLevels" and "numLevels \<le> 61"
  shows "(k < 32768 \<longrightarrow>
            levelCapacity k numLevels level m
              = Inr (max m (two_step_cap k (numLevels - level - 1))))
       \<and> helper_levelCapacity (int k) (int numLevels) (int level) (int m)
              = Inr (int (max m (two_step_cap k (numLevels - level - 1))))
       \<and> two_step_cap k (numLevels - level - 1) \<le> k"
  using levelCapacity_eq[OF _ assms(2,3)] helper_levelCapacity_eq[OF assms] two_step_cap_le
  by blast



text \<open>The amended statement at \<open>K = 200\<close>, three levels, level 1 (depth 1).\<close>

theorem levelCapacity_rounds_witness:
  "levelCapacity 200 3 1 8 = Inr 133 \<and> helper_levelCapacity 200 3 1 8 = Inr 133"
proof -
  have w: "two_step_cap 200 (3 - 1 - 1) = 133"
    by (simp add: two_step_cap_def round_cap_def)
  show ?thesis
    using levelCapacity_rounds[of 200 1 3 8] unfolding w by simp
qed

text \<open>
  C4 as stated fails: at \<open>K = 200\<close>, \<open>M = 8\<close>, depth 1 the ceiling formula of the claim
  gives 134, both implementations return 133.
\<close>

theorem levelCapacity_not_ceiling:
  "levelCapacity 200 2 0 8 = Inr 133 \<and> helper_levelCapacity 200 2 0 8 = Inr 133
   \<and> spec_levelCapacity 200 2 0 8 = 134"
proof -
  have w: "two_step_cap 200 (2 - 0 - 1) = 133"
    by (simp add: two_step_cap_def round_cap_def)
  have a: "levelCapacity 200 2 0 8 = Inr 133"
    using levelCapacity_eq[of 200 0 2 8] unfolding w by simp
  have b: "helper_levelCapacity 200 2 0 8 = Inr 133"
    using helper_levelCapacity_eq[of 200 0 2 8] unfolding w by simp
  have "(2 * rat_of_nat 200 * (2 / 3) ^ 1 + 1) / 2 = 803 / 6" by simp
  moreover have "\<lceil>(803::rat) / 6\<rceil> = 134" by (rule ceiling_unique) simp_all
  ultimately have c: "spec_levelCapacity 200 2 0 8 = 134"
    unfolding spec_levelCapacity_def spec_intCapAux_def by simp
  from a b c show ?thesis by blast
qed

subsection \<open>Cumulative weights\<close>

text \<open>
  C7. The claim: after \<^verbatim>\<open>convertToCumulative\<close>, entry \<open>i\<close> is the sum of the original entries
  \<open>0..i\<close> and the returned total is the sum of all weights. On the three unit weights
  \<open>[1, 1, 1]\<close> the running sums are \<open>[1, 2, 3]\<close> with total 3; the code leaves
  \<open>[1, 2, 2]\<close> and returns 1, because \<^verbatim>\<open>subtotal\<close> is reset to the entry itself instead of
  the new subtotal.
\<close>

theorem convertToCumulative_three_units:
  "convertToCumulative [1, 1, 1] = ([1, 2, 2], 1) \<and> running_sums 0 [1, 1, 1] = [1, 2, 3]"
  by (simp add: convertToCumulative_def Let_def)

subsection \<open>Halving\<close>

lemma add32_small: "a + b < 2 ^ 32 \<Longrightarrow> add32 a b = a + b"
  by (simp add: add32_def)

lemma sub32_small: "b \<le> a \<Longrightarrow> a < 2 ^ 32 \<Longrightarrow> sub32 a b = a - b"
proof -
  assume h: "b \<le> a" "a < 2 ^ 32"
  then have "b mod 2 ^ 32 = b" by simp
  then have "sub32 a b = (a + 2 ^ 32 - b) mod 2 ^ 32" by (simp add: sub32_def)
  also have "a + 2 ^ 32 - b = (a - b) + 2 ^ 32" using h by simp
  also have "((a - b) + 2 ^ 32) mod 2 ^ 32 = (a - b) mod 2 ^ 32" by (rule mod_add_self2)
  also have "\<dots> = a - b" using h by (intro mod_less) arith
  finally show ?thesis .
qed

text \<open>
  C5. The claim: every halving call draws the keep-offset at random, so that on some input
  both offsets can occur. The doubles functions take the draw; on the run \<open>[10, 20, 30, 40]\<close>
  offset 0 keeps \<open>10, 30\<close> and offset 1 keeps \<open>20, 40\<close> (downward), \<open>20, 40\<close> and \<open>10, 30\<close>
  (upward). The items functions have no draw: they always return the offset-1 result.
\<close>

theorem randomlyHalveItems_fixed_offset:
  "randomlyHalveDownItems [10, 20, 30, 40 :: nat] 0 4 = Inr [20, 40, 30, 40]
   \<and> randomlyHalveDownDoubles 1 [10, 20, 30, 40 :: nat] 0 4 = Inr [20, 40, 30, 40]
   \<and> randomlyHalveDownDoubles 0 [10, 20, 30, 40 :: nat] 0 4 = Inr [10, 30, 30, 40]
   \<and> randomlyHalveUpItems [10, 20, 30, 40 :: nat] 0 4 = Inr [10, 20, 10, 30]
   \<and> randomlyHalveUpDoubles 1 [10, 20, 30, 40 :: nat] 0 4 = Inr [10, 20, 10, 30]
   \<and> randomlyHalveUpDoubles 0 [10, 20, 30, 40 :: nat] 0 4 = Inr [10, 20, 20, 40]"
  by (simp add: randomlyHalveDownItems_def randomlyHalveUpItems_def
      randomlyHalveDownDoubles_def randomlyHalveUpDoubles_def
      add32_def sub32_def s64_def tdiv_def Let_def)

subsection \<open>Merging two sorted runs\<close>

lemma dest_clear_iff:
  "dest_clear bufX startX lenX lenY bufC startC =
   writes_clear bufX startX lenX lenY bufC startC"
proof (cases "bufX = bufC \<and> 0 < lenX")
  case False
  then show ?thesis by (auto simp: dest_clear_def writes_clear_def)
next
  case True
  show ?thesis
  proof
    assume "dest_clear bufX startX lenX lenY bufC startC"
    with True have "startX + lenX \<le> startC \<or> startC + lenY \<le> startX"
      by (simp add: dest_clear_def)
    then show "writes_clear bufX startX lenX lenY bufC startC"
      unfolding writes_clear_def by (auto simp: not_less)
  next
    assume w: "writes_clear bufX startX lenX lenY bufC startC"
    show "dest_clear bufX startX lenX lenY bufC startC"
    proof (rule ccontr)
      assume n: "\<not> dest_clear bufX startX lenX lenY bufC startC"
      then have 1: "startC < startX + lenX" and 2: "startX < startC + lenY"
        by (simp_all add: dest_clear_def)
      define j where "j = startX - startC"
      show False
      proof (cases "startC \<le> startX")
        case le: True
        then have "j < lenY" using 2 by (simp add: j_def)
        with w True have "startC + 0 + j < startX + 0 \<or> startX + lenX \<le> startC + 0 + j \<or>
           (startC + 0 + j = startX + 0 \<and> j = lenY)"
          unfolding writes_clear_def by (metis atMost_iff lessThan_iff less_imp_le)
        with le \<open>j < lenY\<close> True show False by (simp add: j_def)
      next
        case False
        with w True have "startC + 0 + 0 < startX + 0 \<or> startX + lenX \<le> startC + 0 + 0 \<or>
           (startC + 0 + 0 = startX + 0 \<and> 0 = lenY)"
          unfolding writes_clear_def by (metis atMost_iff lessThan_iff le0)
        with False 1 show False by simp
      qed
    qed
  qed
qed

lemma mset_merge_lists: "mset (merge_lists lessFn xs ys) = mset xs + mset ys"
  by (induction lessFn xs ys rule: merge_lists.induct) simp_all

lemma set_merge_lists: "set (merge_lists lessFn xs ys) = set xs \<union> set ys"
  by (induction lessFn xs ys rule: merge_lists.induct) auto

lemma length_merge_lists: "length (merge_lists lessFn xs ys) = length xs + length ys"
  by (induction lessFn xs ys rule: merge_lists.induct) simp_all

lemma strict_less_on_subset: "strict_less_on S lessFn \<Longrightarrow> T \<subseteq> S \<Longrightarrow> strict_less_on T lessFn"
  unfolding strict_less_on_def by (meson subsetD)

lemma ascending_merge_lists:
  "strict_less_on (set xs \<union> set ys) lessFn \<Longrightarrow> ascending lessFn xs \<Longrightarrow> ascending lessFn ys
   \<Longrightarrow> ascending lessFn (merge_lists lessFn xs ys)"
proof (induction lessFn xs ys rule: merge_lists.induct)
  case (1 lessFn ys)
  then show ?case by simp
next
  case (2 lessFn x xs)
  then show ?case by simp
next
  case (3 lessFn x xs y ys)
  let ?S = "set (x # xs) \<union> set (y # ys)"
  from "3.prems"(1) have asym: "\<And>u v. u \<in> ?S \<Longrightarrow> v \<in> ?S \<Longrightarrow> lessFn u v \<Longrightarrow> \<not> lessFn v u"
    and nt: "\<And>u v w. u \<in> ?S \<Longrightarrow> v \<in> ?S \<Longrightarrow> w \<in> ?S \<Longrightarrow> lessFn u w \<Longrightarrow> lessFn u v \<or> lessFn v w"
    unfolding strict_less_on_def by blast+
  from "3.prems"(2) have xs: "\<And>z. z \<in> set xs \<Longrightarrow> \<not> lessFn z x" and axs: "ascending lessFn xs"
    by (simp_all add: ascending_def)
  from "3.prems"(3) have ys: "\<And>z. z \<in> set ys \<Longrightarrow> \<not> lessFn z y" and ays: "ascending lessFn ys"
    by (simp_all add: ascending_def)
  show ?case
  proof (cases "lessFn x y")
    case True
    have s: "strict_less_on (set xs \<union> set (y # ys)) lessFn"
      by (rule strict_less_on_subset[OF "3.prems"(1)]) auto
    have ih: "ascending lessFn (merge_lists lessFn xs (y # ys))"
      using "3.IH"(1)[OF True s axs "3.prems"(3)] .
    have "\<not> lessFn z x" if "z \<in> set xs \<union> set (y # ys)" for z
    proof -
      from that consider "z \<in> set xs" | "z = y" | "z \<in> set ys" by auto
      then show ?thesis
      proof cases
        case 1 then show ?thesis by (rule xs)
      next
        case 2 then show ?thesis using asym[of x y] True by simp
      next
        case 3
        show ?thesis
        proof
          assume "lessFn z x"
          then have "lessFn z y \<or> lessFn y x" using nt[of z y x] 3 by simp
          then show False using ys[OF 3] asym[of x y] True by simp
        qed
      qed
    qed
    with ih True show ?thesis by (simp add: ascending_def set_merge_lists)
  next
    case False
    have s: "strict_less_on (set (x # xs) \<union> set ys) lessFn"
      by (rule strict_less_on_subset[OF "3.prems"(1)]) auto
    have ih: "ascending lessFn (merge_lists lessFn (x # xs) ys)"
      using "3.IH"(2)[OF False s "3.prems"(2) ays] .
    have "\<not> lessFn z y" if "z \<in> set (x # xs) \<union> set ys" for z
    proof -
      from that consider "z \<in> set xs" | "z = x" | "z \<in> set ys" by auto
      then show ?thesis
      proof cases
        case 3 then show ?thesis by (rule ys)
      next
        case 2 then show ?thesis using False by simp
      next
        case 1
        show ?thesis
        proof
          assume "lessFn z y"
          then have "lessFn z x \<or> lessFn x y" using nt[of z x y] 1 by simp
          then show False using xs[OF 1] False by simp
        qed
      qed
    qed
    with ih False show ?thesis by (simp add: ascending_def set_merge_lists)
  qed
qed

declare mergeSortedItemsArrays_loop.simps [simp del]
declare mergeSortedDoubleArrays_loop.simps [simp del]

lemma slice_Cons:
  "a < e \<Longrightarrow> e \<le> length l \<Longrightarrow> slice_of l a (e - a) = l ! a # slice_of l (Suc a) (e - Suc a)"
  unfolding slice_of_def
  by (simp add: Cons_nth_drop_Suc[symmetric] Suc_diff_Suc[symmetric] del: Suc_diff_Suc)

lemma slice_empty: "slice_of l a 0 = []"
  by (simp add: slice_of_def)

lemma slice_update_outside:
  "c < a \<or> a + n \<le> c \<Longrightarrow> slice_of (l[c := v]) a n = slice_of l a n"
  unfolding slice_of_def by (auto simp: drop_update_cancel take_update_cancel drop_update_swap)

lemma take_Suc_update: "c < length l \<Longrightarrow> take (Suc c) (l[c := v]) = take c l @ [v]"
  by (simp add: take_Suc_conv_app_nth)

lemma add32_Suc: "a < e \<Longrightarrow> e < 2 ^ 32 \<Longrightarrow> add32 a (Suc 0) = Suc a"
  by (simp add: add32_def)

lemma merge_lists_Nil2: "merge_lists lessFn xs [] = xs"
  by (cases xs) simp_all

lemma mergeSortedItemsArrays_loop_correct:
  fixes st :: "'a store"
  assumes "n = limC - c"
    and "a \<le> limA" "b \<le> limB"
    and "limA \<le> length (st bufA)" "limB \<le> length (st bufB)" "limC \<le> length (st bufC)"
    and "limA < 2 ^ 32" "limB < 2 ^ 32"
    and "c + (limA - a) + (limB - b) = limC"
    and "bufA = bufC \<longrightarrow> a = limA \<or> limA \<le> c \<or> c + (limB - b) \<le> a"
    and "bufB = bufC \<longrightarrow> b = limB \<or> limB \<le> c \<or> c + (limA - a) \<le> b"
  shows "\<exists>st'. mergeSortedItemsArrays_loop lessFn bufA limA bufB limB bufC limC c a b st = Inr st'
           \<and> (\<forall>buf. buf \<noteq> bufC \<longrightarrow> st' buf = st buf)
           \<and> st' bufC = take c (st bufC)
                @ merge_lists lessFn (slice_of (st bufA) a (limA - a)) (slice_of (st bufB) b (limB - b))
                @ drop limC (st bufC)"
  using assms
proof (induction n arbitrary: c a b st)
  case 0
  then have "c = limC" "a = limA" "b = limB" by simp_all
  then show ?case
    by (subst mergeSortedItemsArrays_loop.simps) (simp add: slice_empty)
next
  case (Suc n)
  let ?C = "st bufC"
  from Suc.prems have c: "c < limC" "c < length ?C" by simp_all
  have step: "\<exists>st'. mergeSortedItemsArrays_loop lessFn bufA limA bufB limB bufC limC (Suc c) a' b' (st(bufC := ?C[c := v])) = Inr st'
           \<and> (\<forall>buf. buf \<noteq> bufC \<longrightarrow> st' buf = st buf)
           \<and> st' bufC = take c ?C @ v # merge_lists lessFn xs ys @ drop limC ?C"
    if "a' \<le> limA" "b' \<le> limB" "Suc c + (limA - a') + (limB - b') = limC"
      "bufA = bufC \<longrightarrow> a' = limA \<or> limA \<le> Suc c \<or> Suc c + (limB - b') \<le> a'"
      "bufB = bufC \<longrightarrow> b' = limB \<or> limB \<le> Suc c \<or> Suc c + (limA - a') \<le> b'"
      "xs = slice_of ((st(bufC := ?C[c := v])) bufA) a' (limA - a')"
      "ys = slice_of ((st(bufC := ?C[c := v])) bufB) b' (limB - b')"
    for a' b' v xs ys
  proof -
    let ?st = "st(bufC := ?C[c := v])"
    have "\<exists>st'. mergeSortedItemsArrays_loop lessFn bufA limA bufB limB bufC limC (Suc c) a' b' ?st = Inr st'
           \<and> (\<forall>buf. buf \<noteq> bufC \<longrightarrow> st' buf = ?st buf)
           \<and> st' bufC = take (Suc c) (?st bufC)
                @ merge_lists lessFn (slice_of (?st bufA) a' (limA - a')) (slice_of (?st bufB) b' (limB - b'))
                @ drop limC (?st bufC)"
    proof (rule Suc.IH)
      show "n = limC - Suc c" using Suc.prems(1) by simp
      show "limA \<le> length (?st bufA)" using Suc.prems(4) by (cases "bufA = bufC") simp_all
      show "limB \<le> length (?st bufB)" using Suc.prems(5) by (cases "bufB = bufC") simp_all
      show "limC \<le> length (?st bufC)" using Suc.prems(6) by simp
    qed (use that Suc.prems in simp_all)
    then obtain st' where
      1: "mergeSortedItemsArrays_loop lessFn bufA limA bufB limB bufC limC (Suc c) a' b' ?st = Inr st'"
      and 2: "\<forall>buf. buf \<noteq> bufC \<longrightarrow> st' buf = ?st buf"
      and 3: "st' bufC = take (Suc c) (?st bufC)
                @ merge_lists lessFn (slice_of (?st bufA) a' (limA - a')) (slice_of (?st bufB) b' (limB - b'))
                @ drop limC (?st bufC)" by blast
    from 3 c that(6,7) have "st' bufC = take c ?C @ v # merge_lists lessFn xs ys @ drop limC ?C"
      by (simp add: take_Suc_update drop_update_cancel)
    with 1 2 show ?thesis by simp
  qed
  have keepA: "slice_of ((st(bufC := ?C[c := v])) bufA) a' (limA - a') = slice_of (st bufA) a' (limA - a')"
    if "bufA = bufC \<longrightarrow> c < a' \<or> limA \<le> c \<or> limA \<le> a'" for v a'
  proof (cases "bufA = bufC \<and> a' < limA")
    case True
    with that have "c < a' \<or> a' + (limA - a') \<le> c" by auto
    then show ?thesis using True by (simp add: slice_update_outside)
  next
    case False
    then show ?thesis by (auto simp: slice_empty)
  qed
  have keepB: "slice_of ((st(bufC := ?C[c := v])) bufB) b' (limB - b') = slice_of (st bufB) b' (limB - b')"
    if "bufB = bufC \<longrightarrow> c < b' \<or> limB \<le> c \<or> limB \<le> b'" for v b'
  proof (cases "bufB = bufC \<and> b' < limB")
    case True
    with that have "c < b' \<or> b' + (limB - b') \<le> c" by auto
    then show ?thesis using True by (simp add: slice_update_outside)
  next
    case False
    then show ?thesis by (auto simp: slice_empty)
  qed
  show ?case
  proof (cases "a = limA")
    case aE: True
    with Suc.prems c have b: "b < limB" by simp
    let ?v = "st bufB ! b"
    have sb: "slice_of (st bufB) b (limB - b) = ?v # slice_of (st bufB) (Suc b) (limB - Suc b)"
      using b Suc.prems(5) by (rule slice_Cons)
    have "\<exists>st'. mergeSortedItemsArrays_loop lessFn bufA limA bufB limB bufC limC (Suc c) a (Suc b) (st(bufC := ?C[c := ?v])) = Inr st'
           \<and> (\<forall>buf. buf \<noteq> bufC \<longrightarrow> st' buf = st buf)
           \<and> st' bufC = take c ?C @ ?v # merge_lists lessFn [] (slice_of (st bufB) (Suc b) (limB - Suc b)) @ drop limC ?C"
    proof (rule step)
      show "[] = slice_of ((st(bufC := ?C[c := ?v])) bufA) a (limA - a)" using aE by (simp add: slice_empty)
      show "slice_of (st bufB) (Suc b) (limB - Suc b) = slice_of ((st(bufC := ?C[c := ?v])) bufB) (Suc b) (limB - Suc b)"
        by (rule keepB[symmetric]) (use Suc.prems aE b in auto)
    qed (use Suc.prems aE b in auto)
    moreover have "mergeSortedItemsArrays_loop lessFn bufA limA bufB limB bufC limC c a b st
        = mergeSortedItemsArrays_loop lessFn bufA limA bufB limB bufC limC (Suc c) a (Suc b) (st(bufC := ?C[c := ?v]))"
      using aE c b Suc.prems(5) add32_Suc[OF b Suc.prems(8)]
      by (subst mergeSortedItemsArrays_loop.simps) (simp add: bindE_def rd_def wr_def)
    ultimately show ?thesis using aE sb by (simp add: slice_empty)
  next
    case aN: False
    with Suc.prems have a: "a < limA" by simp
    let ?x = "st bufA ! a"
    have sa: "slice_of (st bufA) a (limA - a) = ?x # slice_of (st bufA) (Suc a) (limA - Suc a)"
      using a Suc.prems(4) by (rule slice_Cons)
    have takeA: "\<exists>st'. mergeSortedItemsArrays_loop lessFn bufA limA bufB limB bufC limC (Suc c) (Suc a) b (st(bufC := ?C[c := ?x])) = Inr st'
           \<and> (\<forall>buf. buf \<noteq> bufC \<longrightarrow> st' buf = st buf)
           \<and> st' bufC = take c ?C @ ?x # merge_lists lessFn (slice_of (st bufA) (Suc a) (limA - Suc a)) (slice_of (st bufB) b (limB - b)) @ drop limC ?C"
    proof (rule step)
      show "slice_of (st bufA) (Suc a) (limA - Suc a) = slice_of ((st(bufC := ?C[c := ?x])) bufA) (Suc a) (limA - Suc a)"
        by (rule keepA[symmetric]) (use Suc.prems a in auto)
      show "slice_of (st bufB) b (limB - b) = slice_of ((st(bufC := ?C[c := ?x])) bufB) b (limB - b)"
        by (rule keepB[symmetric]) (use Suc.prems a in auto)
    qed (use Suc.prems a in auto)
    show ?thesis
    proof (cases "b = limB")
      case bE: True
      have "mergeSortedItemsArrays_loop lessFn bufA limA bufB limB bufC limC c a b st
        = mergeSortedItemsArrays_loop lessFn bufA limA bufB limB bufC limC (Suc c) (Suc a) b (st(bufC := ?C[c := ?x]))"
        using aN bE c a Suc.prems(4) add32_Suc[OF a Suc.prems(7)]
        by (subst mergeSortedItemsArrays_loop.simps) (simp add: bindE_def rd_def wr_def)
      with takeA show ?thesis using bE sa by (simp add: slice_empty merge_lists_Nil2)
    next
      case bN: False
      with Suc.prems have b: "b < limB" by simp
      let ?y = "st bufB ! b"
      have sb: "slice_of (st bufB) b (limB - b) = ?y # slice_of (st bufB) (Suc b) (limB - Suc b)"
        using b Suc.prems(5) by (rule slice_Cons)
      show ?thesis
      proof (cases "lessFn ?x ?y")
        case True
        have "mergeSortedItemsArrays_loop lessFn bufA limA bufB limB bufC limC c a b st
          = mergeSortedItemsArrays_loop lessFn bufA limA bufB limB bufC limC (Suc c) (Suc a) b (st(bufC := ?C[c := ?x]))"
          using aN bN True c a b Suc.prems(4,5) add32_Suc[OF a Suc.prems(7)]
          by (subst mergeSortedItemsArrays_loop.simps) (simp add: bindE_def rd_def wr_def)
        with takeA show ?thesis using sa sb True by simp
      next
        case False
        have "\<exists>st'. mergeSortedItemsArrays_loop lessFn bufA limA bufB limB bufC limC (Suc c) a (Suc b) (st(bufC := ?C[c := ?y])) = Inr st'
           \<and> (\<forall>buf. buf \<noteq> bufC \<longrightarrow> st' buf = st buf)
           \<and> st' bufC = take c ?C @ ?y # merge_lists lessFn (slice_of (st bufA) a (limA - a)) (slice_of (st bufB) (Suc b) (limB - Suc b)) @ drop limC ?C"
        proof (rule step)
          show "slice_of (st bufA) a (limA - a) = slice_of ((st(bufC := ?C[c := ?y])) bufA) a (limA - a)"
            by (rule keepA[symmetric]) (use Suc.prems a b in auto)
          show "slice_of (st bufB) (Suc b) (limB - Suc b) = slice_of ((st(bufC := ?C[c := ?y])) bufB) (Suc b) (limB - Suc b)"
            by (rule keepB[symmetric]) (use Suc.prems a b in auto)
        qed (use Suc.prems a b in auto)
        moreover have "mergeSortedItemsArrays_loop lessFn bufA limA bufB limB bufC limC c a b st
          = mergeSortedItemsArrays_loop lessFn bufA limA bufB limB bufC limC (Suc c) a (Suc b) (st(bufC := ?C[c := ?y]))"
          using aN bN False c a b Suc.prems(4,5) add32_Suc[OF b Suc.prems(8)]
          by (subst mergeSortedItemsArrays_loop.simps) (simp add: bindE_def rd_def wr_def)
        ultimately show ?thesis using sa sb False by simp
      qed
    qed
  qed
qed

lemma s64_Suc: "a < e \<Longrightarrow> int e < 2 ^ 63 \<Longrightarrow> s64 (int a + 1) = int a + 1"
  by (rule s64_id) simp_all

lemma mergeSortedDoubleArrays_loop_correct:
  fixes st :: "float64 store"
  assumes "n = limC - c"
    and "a \<le> limA" "b \<le> limB"
    and "limA \<le> length (st bufA)" "limB \<le> length (st bufB)" "limC \<le> length (st bufC)"
    and "int limA < 2 ^ 63" "int limB < 2 ^ 63"
    and "c + (limA - a) + (limB - b) = limC"
    and "bufA = bufC \<longrightarrow> a = limA \<or> limA \<le> c \<or> c + (limB - b) \<le> a"
    and "bufB = bufC \<longrightarrow> b = limB \<or> limB \<le> c \<or> c + (limA - a) \<le> b"
  shows "\<exists>st'. mergeSortedDoubleArrays_loop bufA (int limA) bufB (int limB) bufC (int limC) (int c) (int a) (int b) st = Inr st'
           \<and> (\<forall>buf. buf \<noteq> bufC \<longrightarrow> st' buf = st buf)
           \<and> st' bufC = take c (st bufC)
                @ merge_lists flt (slice_of (st bufA) a (limA - a)) (slice_of (st bufB) b (limB - b))
                @ drop limC (st bufC)"
  using assms
proof (induction n arbitrary: c a b st)
  case 0
  then have "c = limC" "a = limA" "b = limB" by simp_all
  then show ?case
    by (subst mergeSortedDoubleArrays_loop.simps) (simp add: slice_empty)
next
  case (Suc n)
  let ?C = "st bufC"
  from Suc.prems have c: "c < limC" "c < length ?C" by simp_all
  have step: "\<exists>st'. mergeSortedDoubleArrays_loop bufA (int limA) bufB (int limB) bufC (int limC) (int (Suc c)) (int a') (int b') (st(bufC := ?C[c := v])) = Inr st'
           \<and> (\<forall>buf. buf \<noteq> bufC \<longrightarrow> st' buf = st buf)
           \<and> st' bufC = take c ?C @ v # merge_lists flt xs ys @ drop limC ?C"
    if "a' \<le> limA" "b' \<le> limB" "Suc c + (limA - a') + (limB - b') = limC"
      "bufA = bufC \<longrightarrow> a' = limA \<or> limA \<le> Suc c \<or> Suc c + (limB - b') \<le> a'"
      "bufB = bufC \<longrightarrow> b' = limB \<or> limB \<le> Suc c \<or> Suc c + (limA - a') \<le> b'"
      "xs = slice_of ((st(bufC := ?C[c := v])) bufA) a' (limA - a')"
      "ys = slice_of ((st(bufC := ?C[c := v])) bufB) b' (limB - b')"
    for a' b' v xs ys
  proof -
    let ?st = "st(bufC := ?C[c := v])"
    have "\<exists>st'. mergeSortedDoubleArrays_loop bufA (int limA) bufB (int limB) bufC (int limC) (int (Suc c)) (int a') (int b') ?st = Inr st'
           \<and> (\<forall>buf. buf \<noteq> bufC \<longrightarrow> st' buf = ?st buf)
           \<and> st' bufC = take (Suc c) (?st bufC)
                @ merge_lists flt (slice_of (?st bufA) a' (limA - a')) (slice_of (?st bufB) b' (limB - b'))
                @ drop limC (?st bufC)"
    proof (rule Suc.IH)
      show "n = limC - Suc c" using Suc.prems(1) by simp
      show "limA \<le> length (?st bufA)" using Suc.prems(4) by (cases "bufA = bufC") simp_all
      show "limB \<le> length (?st bufB)" using Suc.prems(5) by (cases "bufB = bufC") simp_all
      show "limC \<le> length (?st bufC)" using Suc.prems(6) by simp
    qed (use that Suc.prems in simp_all)
    then obtain st' where
      1: "mergeSortedDoubleArrays_loop bufA (int limA) bufB (int limB) bufC (int limC) (int (Suc c)) (int a') (int b') ?st = Inr st'"
      and 2: "\<forall>buf. buf \<noteq> bufC \<longrightarrow> st' buf = ?st buf"
      and 3: "st' bufC = take (Suc c) (?st bufC)
                @ merge_lists flt (slice_of (?st bufA) a' (limA - a')) (slice_of (?st bufB) b' (limB - b'))
                @ drop limC (?st bufC)" by blast
    from 3 c that(6,7) have "st' bufC = take c ?C @ v # merge_lists flt xs ys @ drop limC ?C"
      by (simp add: take_Suc_update drop_update_cancel)
    with 1 2 show ?thesis by simp
  qed
  have keepA: "slice_of ((st(bufC := ?C[c := v])) bufA) a' (limA - a') = slice_of (st bufA) a' (limA - a')"
    if "bufA = bufC \<longrightarrow> c < a' \<or> limA \<le> c \<or> limA \<le> a'" for v a'
  proof (cases "bufA = bufC \<and> a' < limA")
    case True
    with that have "c < a' \<or> a' + (limA - a') \<le> c" by auto
    then show ?thesis using True by (simp add: slice_update_outside)
  next
    case False
    then show ?thesis by (auto simp: slice_empty)
  qed
  have keepB: "slice_of ((st(bufC := ?C[c := v])) bufB) b' (limB - b') = slice_of (st bufB) b' (limB - b')"
    if "bufB = bufC \<longrightarrow> c < b' \<or> limB \<le> c \<or> limB \<le> b'" for v b'
  proof (cases "bufB = bufC \<and> b' < limB")
    case True
    with that have "c < b' \<or> b' + (limB - b') \<le> c" by auto
    then show ?thesis using True by (simp add: slice_update_outside)
  next
    case False
    then show ?thesis by (auto simp: slice_empty)
  qed
  show ?case
  proof (cases "a = limA")
    case aE: True
    with Suc.prems c have b: "b < limB" by simp
    let ?v = "st bufB ! b"
    have sb: "slice_of (st bufB) b (limB - b) = ?v # slice_of (st bufB) (Suc b) (limB - Suc b)"
      using b Suc.prems(5) by (rule slice_Cons)
    have "\<exists>st'. mergeSortedDoubleArrays_loop bufA (int limA) bufB (int limB) bufC (int limC) (int (Suc c)) (int a) (int (Suc b)) (st(bufC := ?C[c := ?v])) = Inr st'
           \<and> (\<forall>buf. buf \<noteq> bufC \<longrightarrow> st' buf = st buf)
           \<and> st' bufC = take c ?C @ ?v # merge_lists flt [] (slice_of (st bufB) (Suc b) (limB - Suc b)) @ drop limC ?C"
    proof (rule step)
      show "[] = slice_of ((st(bufC := ?C[c := ?v])) bufA) a (limA - a)" using aE by (simp add: slice_empty)
      show "slice_of (st bufB) (Suc b) (limB - Suc b) = slice_of ((st(bufC := ?C[c := ?v])) bufB) (Suc b) (limB - Suc b)"
        by (rule keepB[symmetric]) (use Suc.prems aE b in auto)
    qed (use Suc.prems aE b in auto)
    moreover have "mergeSortedDoubleArrays_loop bufA (int limA) bufB (int limB) bufC (int limC) (int c) (int a) (int b) st
        = mergeSortedDoubleArrays_loop bufA (int limA) bufB (int limB) bufC (int limC) (int (Suc c)) (int a) (int (Suc b)) (st(bufC := ?C[c := ?v]))"
      using aE c b Suc.prems(5) s64_Suc[OF b Suc.prems(8)]
      by (subst mergeSortedDoubleArrays_loop.simps) (simp add: bindE_def rdi_def wri_def add.commute)
    ultimately show ?thesis using aE sb by (simp add: slice_empty)
  next
    case aN: False
    with Suc.prems have a: "a < limA" by simp
    let ?x = "st bufA ! a"
    have sa: "slice_of (st bufA) a (limA - a) = ?x # slice_of (st bufA) (Suc a) (limA - Suc a)"
      using a Suc.prems(4) by (rule slice_Cons)
    have takeA: "\<exists>st'. mergeSortedDoubleArrays_loop bufA (int limA) bufB (int limB) bufC (int limC) (int (Suc c)) (int (Suc a)) (int b) (st(bufC := ?C[c := ?x])) = Inr st'
           \<and> (\<forall>buf. buf \<noteq> bufC \<longrightarrow> st' buf = st buf)
           \<and> st' bufC = take c ?C @ ?x # merge_lists flt (slice_of (st bufA) (Suc a) (limA - Suc a)) (slice_of (st bufB) b (limB - b)) @ drop limC ?C"
    proof (rule step)
      show "slice_of (st bufA) (Suc a) (limA - Suc a) = slice_of ((st(bufC := ?C[c := ?x])) bufA) (Suc a) (limA - Suc a)"
        by (rule keepA[symmetric]) (use Suc.prems a in auto)
      show "slice_of (st bufB) b (limB - b) = slice_of ((st(bufC := ?C[c := ?x])) bufB) b (limB - b)"
        by (rule keepB[symmetric]) (use Suc.prems a in auto)
    qed (use Suc.prems a in auto)
    show ?thesis
    proof (cases "b = limB")
      case bE: True
      have "mergeSortedDoubleArrays_loop bufA (int limA) bufB (int limB) bufC (int limC) (int c) (int a) (int b) st
        = mergeSortedDoubleArrays_loop bufA (int limA) bufB (int limB) bufC (int limC) (int (Suc c)) (int (Suc a)) (int b) (st(bufC := ?C[c := ?x]))"
        using aN bE c a Suc.prems(4) s64_Suc[OF a Suc.prems(7)]
        by (subst mergeSortedDoubleArrays_loop.simps) (simp add: bindE_def rdi_def wri_def add.commute)
      with takeA show ?thesis using bE sa by (simp add: slice_empty merge_lists_Nil2)
    next
      case bN: False
      with Suc.prems have b: "b < limB" by simp
      let ?y = "st bufB ! b"
      have sb: "slice_of (st bufB) b (limB - b) = ?y # slice_of (st bufB) (Suc b) (limB - Suc b)"
        using b Suc.prems(5) by (rule slice_Cons)
      show ?thesis
      proof (cases "flt ?x ?y")
        case True
        have "mergeSortedDoubleArrays_loop bufA (int limA) bufB (int limB) bufC (int limC) (int c) (int a) (int b) st
          = mergeSortedDoubleArrays_loop bufA (int limA) bufB (int limB) bufC (int limC) (int (Suc c)) (int (Suc a)) (int b) (st(bufC := ?C[c := ?x]))"
          using aN bN True c a b Suc.prems(4,5) s64_Suc[OF a Suc.prems(7)]
          by (subst mergeSortedDoubleArrays_loop.simps) (simp add: bindE_def rdi_def wri_def add.commute)
        with takeA show ?thesis using sa sb True by simp
      next
        case False
        have "\<exists>st'. mergeSortedDoubleArrays_loop bufA (int limA) bufB (int limB) bufC (int limC) (int (Suc c)) (int a) (int (Suc b)) (st(bufC := ?C[c := ?y])) = Inr st'
           \<and> (\<forall>buf. buf \<noteq> bufC \<longrightarrow> st' buf = st buf)
           \<and> st' bufC = take c ?C @ ?y # merge_lists flt (slice_of (st bufA) a (limA - a)) (slice_of (st bufB) (Suc b) (limB - Suc b)) @ drop limC ?C"
        proof (rule step)
          show "slice_of (st bufA) a (limA - a) = slice_of ((st(bufC := ?C[c := ?y])) bufA) a (limA - a)"
            by (rule keepA[symmetric]) (use Suc.prems a b in auto)
          show "slice_of (st bufB) (Suc b) (limB - Suc b) = slice_of ((st(bufC := ?C[c := ?y])) bufB) (Suc b) (limB - Suc b)"
            by (rule keepB[symmetric]) (use Suc.prems a b in auto)
        qed (use Suc.prems a b in auto)
        moreover have "mergeSortedDoubleArrays_loop bufA (int limA) bufB (int limB) bufC (int limC) (int c) (int a) (int b) st
          = mergeSortedDoubleArrays_loop bufA (int limA) bufB (int limB) bufC (int limC) (int (Suc c)) (int a) (int (Suc b)) (st(bufC := ?C[c := ?y]))"
          using aN bN False c a b Suc.prems(4,5) s64_Suc[OF b Suc.prems(8)]
          by (subst mergeSortedDoubleArrays_loop.simps) (simp add: bindE_def rdi_def wri_def add.commute)
        ultimately show ?thesis using sa sb False by simp
      qed
    qed
  qed
qed

lemma slice_of_written:
  "c \<le> length l \<Longrightarrow> length m = n \<Longrightarrow> slice_of (take c l @ m @ r) c n = m"
  by (simp add: slice_of_def)

lemma dest_clear_start:
  "dest_clear bufX startX lenX lenY bufC startC \<Longrightarrow>
   bufX = bufC \<longrightarrow> startX = startX + lenX \<or> startX + lenX \<le> startC
     \<or> startC + (startY + lenY - startY) \<le> startX"
  by (auto simp: dest_clear_def)

lemma mergeSortedItemsArrays_merge_lists:
  fixes st :: "'a store"
  assumes "startA + lenA \<le> length (st bufA)" "startB + lenB \<le> length (st bufB)"
    "startC + (lenA + lenB) \<le> length (st bufC)"
    "startA + lenA < 2 ^ 32" "startB + lenB < 2 ^ 32" "startC + (lenA + lenB) < 2 ^ 32"
    "dest_clear bufA startA lenA lenB bufC startC" "dest_clear bufB startB lenB lenA bufC startC"
  shows "\<exists>st'. mergeSortedItemsArrays lessFn st bufA startA lenA bufB startB lenB bufC startC = Inr st'
           \<and> (\<forall>buf. buf \<noteq> bufC \<longrightarrow> st' buf = st buf)
           \<and> slice_of (st' bufC) startC (lenA + lenB)
              = merge_lists lessFn (slice_of (st bufA) startA lenA) (slice_of (st bufB) startB lenB)"
proof -
  let ?xs = "slice_of (st bufA) startA lenA" and ?ys = "slice_of (st bufB) startB lenB"
  have len: "length ?xs = lenA" "length ?ys = lenB"
    using assms(1,2) by (simp_all add: slice_of_def)
  have "\<exists>st'. mergeSortedItemsArrays_loop lessFn bufA (startA + lenA) bufB (startB + lenB) bufC
            (startC + (lenA + lenB)) startC startA startB st = Inr st'
           \<and> (\<forall>buf. buf \<noteq> bufC \<longrightarrow> st' buf = st buf)
           \<and> st' bufC = take startC (st bufC)
                @ merge_lists lessFn (slice_of (st bufA) startA (startA + lenA - startA))
                    (slice_of (st bufB) startB (startB + lenB - startB))
                @ drop (startC + (lenA + lenB)) (st bufC)"
  proof (rule mergeSortedItemsArrays_loop_correct[OF refl])
    show "bufA = bufC \<longrightarrow> startA = startA + lenA \<or> startA + lenA \<le> startC
            \<or> startC + (startB + lenB - startB) \<le> startA"
      using assms(7) by (rule dest_clear_start)
    show "bufB = bufC \<longrightarrow> startB = startB + lenB \<or> startB + lenB \<le> startC
            \<or> startC + (startA + lenA - startA) \<le> startB"
      using assms(8) by (rule dest_clear_start)
  qed (use assms in simp_all)
  then obtain st' where
    1: "mergeSortedItemsArrays_loop lessFn bufA (startA + lenA) bufB (startB + lenB) bufC
            (startC + (lenA + lenB)) startC startA startB st = Inr st'"
    and 2: "\<forall>buf. buf \<noteq> bufC \<longrightarrow> st' buf = st buf"
    and 3: "st' bufC = take startC (st bufC) @ merge_lists lessFn ?xs ?ys
                @ drop (startC + (lenA + lenB)) (st bufC)" by auto
  have "slice_of (st' bufC) startC (lenA + lenB) = merge_lists lessFn ?xs ?ys"
    unfolding 3 by (rule slice_of_written) (use assms(3) len in \<open>simp_all add: length_merge_lists\<close>)
  moreover have "mergeSortedItemsArrays lessFn st bufA startA lenA bufB startB lenB bufC startC
      = mergeSortedItemsArrays_loop lessFn bufA (startA + lenA) bufB (startB + lenB) bufC
            (startC + (lenA + lenB)) startC startA startB st"
    using assms(4-6) by (simp add: mergeSortedItemsArrays_def add32_def)
  ultimately show ?thesis using 1 2 by simp
qed

lemma mergeSortedDoubleArrays_merge_lists:
  fixes st :: "float64 store"
  assumes "startA + lenA \<le> length (st bufA)" "startB + lenB \<le> length (st bufB)"
    "startC + (lenA + lenB) \<le> length (st bufC)"
    "int (startA + lenA) < 2 ^ 63" "int (startB + lenB) < 2 ^ 63" "int (startC + (lenA + lenB)) < 2 ^ 63"
    "dest_clear bufA startA lenA lenB bufC startC" "dest_clear bufB startB lenB lenA bufC startC"
  shows "\<exists>st'. mergeSortedDoubleArrays st bufA (int startA) (int lenA) bufB (int startB) (int lenB)
             bufC (int startC) = Inr st'
           \<and> (\<forall>buf. buf \<noteq> bufC \<longrightarrow> st' buf = st buf)
           \<and> slice_of (st' bufC) startC (lenA + lenB)
              = merge_lists flt (slice_of (st bufA) startA lenA) (slice_of (st bufB) startB lenB)"
proof -
  let ?xs = "slice_of (st bufA) startA lenA" and ?ys = "slice_of (st bufB) startB lenB"
  have len: "length ?xs = lenA" "length ?ys = lenB"
    using assms(1,2) by (simp_all add: slice_of_def)
  have "\<exists>st'. mergeSortedDoubleArrays_loop bufA (int (startA + lenA)) bufB (int (startB + lenB)) bufC
            (int (startC + (lenA + lenB))) (int startC) (int startA) (int startB) st = Inr st'
           \<and> (\<forall>buf. buf \<noteq> bufC \<longrightarrow> st' buf = st buf)
           \<and> st' bufC = take startC (st bufC)
                @ merge_lists flt (slice_of (st bufA) startA (startA + lenA - startA))
                    (slice_of (st bufB) startB (startB + lenB - startB))
                @ drop (startC + (lenA + lenB)) (st bufC)"
  proof (rule mergeSortedDoubleArrays_loop_correct[OF refl])
    show "bufA = bufC \<longrightarrow> startA = startA + lenA \<or> startA + lenA \<le> startC
            \<or> startC + (startB + lenB - startB) \<le> startA"
      using assms(7) by (rule dest_clear_start)
    show "bufB = bufC \<longrightarrow> startB = startB + lenB \<or> startB + lenB \<le> startC
            \<or> startC + (startA + lenA - startA) \<le> startB"
      using assms(8) by (rule dest_clear_start)
  qed (use assms in simp_all)
  then obtain st' where
    1: "mergeSortedDoubleArrays_loop bufA (int (startA + lenA)) bufB (int (startB + lenB)) bufC
            (int (startC + (lenA + lenB))) (int startC) (int startA) (int startB) st = Inr st'"
    and 2: "\<forall>buf. buf \<noteq> bufC \<longrightarrow> st' buf = st buf"
    and 3: "st' bufC = take startC (st bufC) @ merge_lists flt ?xs ?ys
                @ drop (startC + (lenA + lenB)) (st bufC)" by auto
  have "slice_of (st' bufC) startC (lenA + lenB) = merge_lists flt ?xs ?ys"
    unfolding 3 by (rule slice_of_written) (use assms(3) len in \<open>simp_all add: length_merge_lists\<close>)
  moreover have s: "s64 (int lenA + int lenB) = int lenA + int lenB"
    "s64 (int startA + int lenA) = int startA + int lenA"
    "s64 (int startB + int lenB) = int startB + int lenB"
    "s64 (int startC + (int lenA + int lenB)) = int startC + (int lenA + int lenB)"
    using assms(4-6) by (simp_all add: s64_id)
  have "mergeSortedDoubleArrays st bufA (int startA) (int lenA) bufB (int startB) (int lenB)
             bufC (int startC)
      = mergeSortedDoubleArrays_loop bufA (int (startA + lenA)) bufB (int (startB + lenB)) bufC
            (int (startC + (lenA + lenB))) (int startC) (int startA) (int startB) st"
    by (simp add: mergeSortedDoubleArrays_def s)
  ultimately show ?thesis using 1 2 by simp
qed

text \<open>
  C10. Items: for a comparator that is a strict-less comparator on the values of the two source
  ranges, source ranges that are ascending and lie inside their arrays (the range ends being
  \<^verbatim>\<open>uint32\<close> values), and a destination range inside its array on whose cells no write lands
  before the source cell there has been read, \<^verbatim>\<open>mergeSortedItemsArrays\<close> returns, and the
  destination range is then ascending and a permutation of the two source ranges taken
  together. Doubles: the same for \<^verbatim>\<open>mergeSortedDoubleArrays\<close> with \<^verbatim>\<open>int\<close> indices and the
  built-in \<^verbatim>\<open><\<close> of \<^verbatim>\<open>float64\<close>.
\<close>

theorem mergeSortedArrays_sorted_permutation:
  fixes st :: "'a store" and dst :: "float64 store"
  shows
  "(strict_less_on (set (slice_of (st bufA) startA lenA) \<union> set (slice_of (st bufB) startB lenB)) lessFn \<and>
    ascending lessFn (slice_of (st bufA) startA lenA) \<and>
    ascending lessFn (slice_of (st bufB) startB lenB) \<and>
    startA + lenA \<le> length (st bufA) \<and> startB + lenB \<le> length (st bufB) \<and>
    startC + (lenA + lenB) \<le> length (st bufC) \<and>
    startA + lenA < 2 ^ 32 \<and> startB + lenB < 2 ^ 32 \<and> startC + (lenA + lenB) < 2 ^ 32 \<and>
    writes_clear bufA startA lenA lenB bufC startC \<and>
    writes_clear bufB startB lenB lenA bufC startC
    \<longrightarrow> (\<exists>st'. mergeSortedItemsArrays lessFn st bufA startA lenA bufB startB lenB bufC startC
                  = Inr st' \<and>
              ascending lessFn (slice_of (st' bufC) startC (lenA + lenB)) \<and>
              mset (slice_of (st' bufC) startC (lenA + lenB))
                = mset (slice_of (st bufA) startA lenA) + mset (slice_of (st bufB) startB lenB)))
   \<and>
   (0 \<le> startD \<and> 0 \<le> lenD \<and> 0 \<le> startE \<and> 0 \<le> lenE \<and> 0 \<le> startF \<and>
    strict_less_on (set (slice_of (dst bufD) (nat startD) (nat lenD))
                      \<union> set (slice_of (dst bufE) (nat startE) (nat lenE))) flt \<and>
    ascending flt (slice_of (dst bufD) (nat startD) (nat lenD)) \<and>
    ascending flt (slice_of (dst bufE) (nat startE) (nat lenE)) \<and>
    startD + lenD \<le> int (length (dst bufD)) \<and> startE + lenE \<le> int (length (dst bufE)) \<and>
    startF + (lenD + lenE) \<le> int (length (dst bufF)) \<and>
    startD + lenD < 2 ^ 63 \<and> startE + lenE < 2 ^ 63 \<and> startF + (lenD + lenE) < 2 ^ 63 \<and>
    writes_clear bufD (nat startD) (nat lenD) (nat lenE) bufF (nat startF) \<and>
    writes_clear bufE (nat startE) (nat lenE) (nat lenD) bufF (nat startF)
    \<longrightarrow> (\<exists>dst'. mergeSortedDoubleArrays dst bufD startD lenD bufE startE lenE bufF startF
                  = Inr dst' \<and>
              ascending flt (slice_of (dst' bufF) (nat startF) (nat (lenD + lenE))) \<and>
              mset (slice_of (dst' bufF) (nat startF) (nat (lenD + lenE)))
                = mset (slice_of (dst bufD) (nat startD) (nat lenD))
                  + mset (slice_of (dst bufE) (nat startE) (nat lenE))))"
proof (intro conjI impI)
  let ?xs = "slice_of (st bufA) startA lenA" and ?ys = "slice_of (st bufB) startB lenB"
  assume h: "strict_less_on (set ?xs \<union> set ?ys) lessFn \<and> ascending lessFn ?xs \<and>
    ascending lessFn ?ys \<and>
    startA + lenA \<le> length (st bufA) \<and> startB + lenB \<le> length (st bufB) \<and>
    startC + (lenA + lenB) \<le> length (st bufC) \<and>
    startA + lenA < 2 ^ 32 \<and> startB + lenB < 2 ^ 32 \<and> startC + (lenA + lenB) < 2 ^ 32 \<and>
    writes_clear bufA startA lenA lenB bufC startC \<and>
    writes_clear bufB startB lenB lenA bufC startC"
  then have "\<exists>st'. mergeSortedItemsArrays lessFn st bufA startA lenA bufB startB lenB bufC startC = Inr st'
           \<and> (\<forall>buf. buf \<noteq> bufC \<longrightarrow> st' buf = st buf)
           \<and> slice_of (st' bufC) startC (lenA + lenB) = merge_lists lessFn ?xs ?ys"
    by (intro mergeSortedItemsArrays_merge_lists) (simp_all add: dest_clear_iff)
  moreover from h have "ascending lessFn (merge_lists lessFn ?xs ?ys)"
    by (intro ascending_merge_lists) simp_all
  ultimately show "\<exists>st'. mergeSortedItemsArrays lessFn st bufA startA lenA bufB startB lenB bufC startC
                  = Inr st' \<and>
              ascending lessFn (slice_of (st' bufC) startC (lenA + lenB)) \<and>
              mset (slice_of (st' bufC) startC (lenA + lenB)) = mset ?xs + mset ?ys"
    by (auto simp: mset_merge_lists)
next
  let ?xs = "slice_of (dst bufD) (nat startD) (nat lenD)"
    and ?ys = "slice_of (dst bufE) (nat startE) (nat lenE)"
  assume h: "0 \<le> startD \<and> 0 \<le> lenD \<and> 0 \<le> startE \<and> 0 \<le> lenE \<and> 0 \<le> startF \<and>
    strict_less_on (set ?xs \<union> set ?ys) flt \<and> ascending flt ?xs \<and> ascending flt ?ys \<and>
    startD + lenD \<le> int (length (dst bufD)) \<and> startE + lenE \<le> int (length (dst bufE)) \<and>
    startF + (lenD + lenE) \<le> int (length (dst bufF)) \<and>
    startD + lenD < 2 ^ 63 \<and> startE + lenE < 2 ^ 63 \<and> startF + (lenD + lenE) < 2 ^ 63 \<and>
    writes_clear bufD (nat startD) (nat lenD) (nat lenE) bufF (nat startF) \<and>
    writes_clear bufE (nat startE) (nat lenE) (nat lenD) bufF (nat startF)"
  from h have eqs: "int (nat startD) = startD" "int (nat lenD) = lenD" "int (nat startE) = startE"
    "int (nat lenE) = lenE" "int (nat startF) = startF" "nat lenD + nat lenE = nat (lenD + lenE)"
    by (simp_all add: nat_add_distrib)
  from h have b1: "nat startD + nat lenD \<le> length (dst bufD)"
    and b2: "nat startE + nat lenE \<le> length (dst bufE)"
    and b3: "nat startF + (nat lenD + nat lenE) \<le> length (dst bufF)"
    and b4: "int (nat startD + nat lenD) < 2 ^ 63"
    and b5: "int (nat startE + nat lenE) < 2 ^ 63"
    and b6: "int (nat startF + (nat lenD + nat lenE)) < 2 ^ 63"
    by linarith+
  from h have "dest_clear bufD (nat startD) (nat lenD) (nat lenE) bufF (nat startF)"
    "dest_clear bufE (nat startE) (nat lenE) (nat lenD) bufF (nat startF)"
    by (simp_all add: dest_clear_iff)
  with b1 b2 b3 b4 b5 b6
  have "\<exists>st'. mergeSortedDoubleArrays dst bufD (int (nat startD)) (int (nat lenD))
             bufE (int (nat startE)) (int (nat lenE)) bufF (int (nat startF)) = Inr st'
           \<and> (\<forall>buf. buf \<noteq> bufF \<longrightarrow> st' buf = dst buf)
           \<and> slice_of (st' bufF) (nat startF) (nat lenD + nat lenE) = merge_lists flt ?xs ?ys"
    by (rule mergeSortedDoubleArrays_merge_lists)
  moreover note eqs
  moreover from h have "ascending flt (merge_lists flt ?xs ?ys)"
    by (intro ascending_merge_lists) simp_all
  ultimately show "\<exists>dst'. mergeSortedDoubleArrays dst bufD startD lenD bufE startE lenE bufF startF
                  = Inr dst' \<and>
              ascending flt (slice_of (dst' bufF) (nat startF) (nat (lenD + lenE))) \<and>
              mset (slice_of (dst' bufF) (nat startF) (nat (lenD + lenE))) = mset ?xs + mset ?ys"
    by (auto simp: mset_merge_lists)
qed


theorem mergeSortedArrays_sorted_permutation_witness:
  "(strict_less_on (set (slice_of [2, 5, 0, 0, 3, 4, 9 :: nat] 0 2)
                     \<union> set (slice_of [2, 5, 0, 0, 3, 4, 9] 4 3)) (<) \<and>
    ascending (<) (slice_of [2, 5, 0, 0, 3, 4, 9 :: nat] 0 2) \<and>
    ascending (<) (slice_of [2, 5, 0, 0, 3, 4, 9 :: nat] 4 3) \<and>
    writes_clear 0 0 2 3 0 2 \<and> writes_clear 0 4 3 2 0 2) \<and>
   (\<exists>st'. mergeSortedItemsArrays (<) (\<lambda>_. [2, 5, 0, 0, 3, 4, 9 :: nat]) 0 0 2 0 4 3 0 2 = Inr st' \<and>
      ascending (<) (slice_of (st' 0) 2 (2 + 3)) \<and>
      mset (slice_of (st' 0) 2 (2 + 3)) = mset [2, 5] + mset [3, 4, 9]) \<and>
   (strict_less_on (set (slice_of [Fin 1, Fin 4, NaN, NaN, Fin 2, Fin 3, Fin 9] 0 2)
                     \<union> set (slice_of [Fin 1, Fin 4, NaN, NaN, Fin 2, Fin 3, Fin 9] 4 3)) flt \<and>
    ascending flt (slice_of [Fin 1, Fin 4, NaN, NaN, Fin 2, Fin 3, Fin 9] 0 2) \<and>
    ascending flt (slice_of [Fin 1, Fin 4, NaN, NaN, Fin 2, Fin 3, Fin 9] 4 3)) \<and>
   (\<exists>dst'. mergeSortedDoubleArrays (\<lambda>_. [Fin 1, Fin 4, NaN, NaN, Fin 2, Fin 3, Fin 9]) 0 0 2 0 4 3 0 2
        = Inr dst' \<and>
      ascending flt (slice_of (dst' 0) 2 5) \<and>
      mset (slice_of (dst' 0) 2 5) = mset [Fin 1, Fin 4] + mset [Fin 2, Fin 3, Fin 9])"
proof -
  have s: "slice_of [2, 5, 0, 0, 3, 4, 9 :: nat] 0 2 = [2, 5]"
    "slice_of [2, 5, 0, 0, 3, 4, 9 :: nat] 4 3 = [3, 4, 9]"
    "slice_of [Fin 1, Fin 4, NaN, NaN, Fin 2, Fin 3, Fin 9] 0 2 = [Fin 1, Fin 4]"
    "slice_of [Fin 1, Fin 4, NaN, NaN, Fin 2, Fin 3, Fin 9] 4 3 = [Fin 2, Fin 3, Fin 9]"
    by (simp_all add: slice_of_def)
  have w: "writes_clear 0 0 2 3 0 2" "writes_clear 0 4 3 2 0 2"
    by (simp_all add: dest_clear_iff[symmetric] dest_clear_def)
  have h: "strict_less_on (set [2, 5 :: nat] \<union> set [3, 4, 9]) (<)"
    "strict_less_on (set [Fin 1, Fin 4] \<union> set [Fin 2, Fin 3, Fin 9]) flt"
    "ascending (<) [2, 5 :: nat]" "ascending (<) [3, 4, 9 :: nat]"
    "ascending flt [Fin 1, Fin 4]" "ascending flt [Fin 2, Fin 3, Fin 9]"
    by (simp_all add: strict_less_on_def ascending_def)
  show ?thesis
    using mergeSortedArrays_sorted_permutation
      [where st = "\<lambda>_. [2, 5, 0, 0, 3, 4, 9 :: nat]" and lessFn = "(<)"
         and bufA = 0 and startA = 0 and lenA = 2 and bufB = 0 and startB = 4 and lenB = 3
         and bufC = 0 and startC = 2
         and dst = "\<lambda>_. [Fin 1, Fin 4, NaN, NaN, Fin 2, Fin 3, Fin 9]"
         and bufD = 0 and startD = 0 and lenD = 2 and bufE = 0 and startE = 4 and lenE = 3
         and bufF = 0 and startF = 2] h
    by (simp add: s w)
qed

subsection \<open>The double sketch\<close>

lemmas dbl_eval_defs =
  NewKllDoubleSketch_def checkK_def checkM_def d_Update_def updateDouble_def
  updateDouble_minmax_def updateDouble_minmax_v0_def updateDouble_insert_def
  d_IsEmpty_def d_GetN_def d_GetMinItem_def d_GetMaxItem_def d_getNumLevels_def
  d_getLevelsArray_def d_getLevelsArray_v0_def
  d_addEmptyTopLevelToCompletelyFullSketch_def d_addEmptyTopLevelToCompletelyFullSketch_v0_def
  d_addEmptyTop_tail_def
  bindE_def rdi_def wri_def addi_def subi_def s64_def Let_def

text \<open>
  C2. The claim: after any stream of non-NaN updates \<^verbatim>\<open>getMaxItem\<close> is the maximum of the
  stream. In the later revision of the double sketch the stream \<open>5, 1\<close> leaves minimum 1 and
  maximum 1: \<^verbatim>\<open>updateDouble\<close> takes the old maximum from \<^verbatim>\<open>GetMinItem\<close>, which by then is
  already the new minimum. The earlier revision's min/max step gives 5 on the same state.
\<close>

theorem updateDouble_max_of_5_1:
  "bindE (NewKllDoubleSketch 8 8) (\<lambda>s. bindE (d_update_all s [Fin 5, Fin 1]) (\<lambda>s'.
      Inr (d_GetMinItem s', d_GetMaxItem s'))) = Inr (Inr (Fin 1), Inr (Fin 1))
   \<and> bindE (NewKllDoubleSketch 8 8) (\<lambda>s. bindE (d_update_all s [Fin 5]) (\<lambda>s1.
      bindE (updateDouble_minmax_v0 s1 (Fin 1)) (\<lambda>s'. Inr (d_maxDoubleItem s')))) = Inr (Fin 5)"
  by (simp add: dbl_eval_defs eval_nat_numeral)

text \<open>
  C9. The claim: on a completely full sketch whose levels array has the minimal length
  \<open>numLevels + 1\<close>, \<^verbatim>\<open>addEmptyTopLevelToCompletelyFullSketch\<close> reads and writes the levels
  array in bounds. The double sketch with \<open>K = M = 8\<close> after eight updates is full, its
  levels array is \<open>[0, 8]\<close> with one level; the later revision reads entry
  \<open>numLevels + 1 = 2\<close> to decide whether to grow and panics, the earlier revision works on a
  copy of length 0 and panics at its first read.
\<close>

theorem d_addEmptyTopLevel_out_of_range:
  "bindE (NewKllDoubleSketch 8 8) (\<lambda>s.
     bindE (d_update_all s [Fin 1, Fin 2, Fin 3, Fin 4, Fin 5, Fin 6, Fin 7, Fin 8]) (\<lambda>s'.
       Inr (d_levelsArr s', d_getNumLevels s',
            d_addEmptyTopLevelToCompletelyFullSketch s',
            d_addEmptyTopLevelToCompletelyFullSketch_v0 s')))
   = Inr ([0, 8], 1, Inl IndexOutOfRange, Inl IndexOutOfRange)"
  by (simp add: dbl_eval_defs eval_nat_numeral helper_levelCapacity_eq[of 8 0 2 8, simplified])

subsection \<open>PMF and CDF of the sorted view\<close>

lemma bindE_Inl: "bindE (Inl e) f = Inl e"
  by (simp add: bindE_def)

lemma bindE_Inr: "bindE (Inr x) f = f x"
  by (simp add: bindE_def)

text \<open>
  C6. The claim: on a non-empty sketch \<^verbatim>\<open>getPMF\<close> returns the successive differences of
  \<^verbatim>\<open>getCDF\<close>, whose last entry is 1. On the view of the sketch that holds the one item
  \<open>1.0\<close>, with the one split point \<open>1.0\<close>, neither returns an array: \<^verbatim>\<open>getCDF\<close> asks the
  view's \<^verbatim>\<open>getRank\<close> for the rank of the split point, and \<^verbatim>\<open>getRank\<close> is the stub
  \<^verbatim>\<open>panic("not implemented")\<close>; \<^verbatim>\<open>getPMF\<close> calls \<^verbatim>\<open>getCDF\<close> first and stops with it.
\<close>

theorem getPMF_one_split_point:
  "view_getCDF \<lparr>v_quantiles = [Fin 1], v_cumWeights = [1], v_totalN = 1,
                   v_maxItem = Fin 1, v_minItem = Fin 1\<rparr> [Fin 1] KLL_INCLUSIVE
       = Inl (Panic ''not implemented'')
   \<and> view_getPMF \<lparr>v_quantiles = [Fin 1], v_cumWeights = [1], v_totalN = 1,
                   v_maxItem = Fin 1, v_minItem = Fin 1\<rparr> [Fin 1] KLL_INCLUSIVE
       = Inl (Panic ''not implemented'')"
  by (simp add: view_getPMF_def view_getCDF_def getPMF_with_def getCDF_with_def
      checkDoublesSplitPointsOrder_def view_getRank_def view_IsEmpty_def bindE_def rdi_def
      wri_def Let_def eval_nat_numeral)

text \<open>
  The same for every non-empty view and every split-point array with at least one point that
  passes the order check; with no split point both return \<open>[1]\<close>.
\<close>

lemma getCDF_loop_stub:
  assumes "0 \<le> i" "i < leng - 1" "leng - 1 \<le> int (length splitPoints)"
  shows "getCDF_loop (\<lambda>q. Inl (Panic ''not implemented'')) splitPoints leng i buckets
         = Inl (Panic ''not implemented'')"
  using assms
  by (subst getCDF_loop.simps) (simp add: rdi_def bindE_Inl bindE_Inr)

lemma view_getCDF_stub:
  assumes "v_totalN v \<noteq> 0" "splitPoints \<noteq> []"
    and "checkDoublesSplitPointsOrder splitPoints = Inr ()"
  shows "view_getCDF v splitPoints c = Inl (Panic ''not implemented'')"
proof -
  have r: "(\<lambda>q. view_getRank v q c) = (\<lambda>q. Inl (Panic ''not implemented''))"
    using assms(1) by (simp add: view_getRank_def view_IsEmpty_def)
  have l: "0 < int (length splitPoints)" using assms(2) by simp
  show ?thesis
    unfolding view_getCDF_def getCDF_with_def r assms(3) bindE_Inr Let_def
    using l by (subst getCDF_loop_stub) (simp_all add: bindE_Inl)
qed

lemma view_getPMF_stub:
  assumes "v_totalN v \<noteq> 0" "splitPoints \<noteq> []"
    and "checkDoublesSplitPointsOrder splitPoints = Inr ()"
  shows "view_getPMF v splitPoints c = Inl (Panic ''not implemented'')"
  using view_getCDF_stub[OF assms, of c]
  by (simp add: view_getPMF_def view_getCDF_def getPMF_with_def bindE_Inl)

lemma view_getPMF_no_split_point:
  "view_getCDF v [] c = Inr [Fin 1] \<and> view_getPMF v [] c = Inr [Fin 1]"
  by (simp add: view_getPMF_def view_getCDF_def getPMF_with_def getCDF_with_def
      checkDoublesSplitPointsOrder_def bindE_def rdi_def wri_def Let_def)

subsection \<open>Queries on an empty sketch\<close>

text \<open>
  C8. On an empty items sketch (\<open>N = 0\<close>) each of \<^verbatim>\<open>GetMinItem\<close>, \<^verbatim>\<open>GetMaxItem\<close>, \<^verbatim>\<open>GetRank\<close>,
  \<^verbatim>\<open>GetQuantile\<close>, \<^verbatim>\<open>GetQuantiles\<close>, \<^verbatim>\<open>GetPMF\<close>, \<^verbatim>\<open>GetCDF\<close>, \<^verbatim>\<open>GetPartitionBoundaries\<close> and
  \<^verbatim>\<open>GetSortedView\<close> returns an error and leaves the sketch as it was, whatever the sorted-view
  code does (it is not reached); \<^verbatim>\<open>GetMinItem\<close> and \<^verbatim>\<open>GetMaxItem\<close> of an empty double sketch
  return an error; and \<^verbatim>\<open>GetQuantile\<close> returns an error and leaves the sketch as it was for
  every rank below 0 or above 1, on every sketch.
\<close>

theorem empty_sketch_queries_fail:
  fixes s :: "('a, 'v) ItemsSketch" and vo :: "('a, 'v, 'p) viewOps" and d :: DoubleSketch
  shows "(s_n s = 0 \<longrightarrow>
            GetMinItem s = Inl (Err empty_msg)
          \<and> GetMaxItem s = Inl (Err empty_msg)
          \<and> GetRank vo s item inclusive = (Inl (Err empty_msg), s)
          \<and> GetQuantile vo s rank inclusive = (Inl (Err empty_msg), s)
          \<and> GetQuantiles vo s ranks inclusive = (Inl (Err empty_msg), s)
          \<and> GetPMF vo s splitPoints inclusive = (Inl (Err empty_msg), s)
          \<and> GetCDF vo s splitPoints inclusive = (Inl (Err empty_msg), s)
          \<and> GetPartitionBoundaries vo s numEquallySized inclusive = (Inl (Err empty_msg), s)
          \<and> GetSortedView vo s = (Inl (Err empty_msg), s))
       \<and> (d_n d = 0 \<longrightarrow>
            d_GetMinItem d = Inl (Err ''empty sketch'') \<and> d_GetMaxItem d = Inl (Err ''empty sketch''))
       \<and> (flt rank (Fin 0) \<or> flt (Fin 1) rank \<longrightarrow>
            (\<exists>e. GetQuantile vo s rank inclusive = (Inl (Err e), s)))"
  by (simp add: GetMinItem_def GetMaxItem_def GetRank_def GetQuantile_def GetQuantiles_def
      GetPMF_def GetCDF_def GetPartitionBoundaries_def GetSortedView_def IsEmpty_def
      d_GetMinItem_def d_GetMaxItem_def d_IsEmpty_def d_GetN_def)

text \<open>
  The theorem on the new sketch with \<open>K = 200\<close> over the test file's strings, on the new
  double sketch, and, for the rank check, on the sketch after the update \<open>"A"\<close> with the
  rank 2.
\<close>

theorem empty_sketch_queries_fail_witness:
  "\<exists>(s0 :: (byte list, unit) ItemsSketch) d0 s1.
      NewItemsSketch 200 stringItemsSketchOp = Inr s0 \<and> s_n s0 = 0
    \<and> NewKllDoubleSketch 200 8 = Inr d0 \<and> d_n d0 = 0
    \<and> Update s0 [65] = Inr s1 \<and> s_n s1 = 1
    \<and> GetMinItem s0 = Inl (Err empty_msg)
    \<and> GetRank no_view s0 [65] True = (Inl (Err empty_msg), s0)
    \<and> GetQuantile no_view s0 (Fin (1 / 2)) True = (Inl (Err empty_msg), s0)
    \<and> GetCDF no_view s0 [[65]] True = (Inl (Err empty_msg), s0)
    \<and> GetSortedView no_view s0 = (Inl (Err empty_msg), s0)
    \<and> d_GetMaxItem d0 = Inl (Err ''empty sketch'')
    \<and> (\<exists>e. GetQuantile no_view s1 (Fin 2) True = (Inl (Err e), s1))"
proof -
  obtain s0 :: "(byte list, unit) ItemsSketch"
    where s0: "NewItemsSketch 200 stringItemsSketchOp = Inr s0" and n0: "s_n s0 = 0"
    by (simp add: NewItemsSketch_def)
  obtain d0 where d0: "NewKllDoubleSketch 200 8 = Inr d0" and dn: "d_n d0 = 0"
    by (simp add: NewKllDoubleSketch_def checkK_def checkM_def bindE_def)
  obtain s1 where s1: "Update s0 [65] = Inr s1" and n1: "s_n s1 = 1"
    using s0
    by (auto simp: NewItemsSketch_def Update_def updateItem_def stringItemsSketchOp_def
        IsEmpty_def bindE_def rd_def wr_def sub32_def add64_def Let_def)
  have r: "flt (Fin 0) (Fin 0) \<or> flt (Fin 1) (Fin 2)" by simp
  show ?thesis
    using empty_sketch_queries_fail[where s = s0 and vo = no_view and d = d0
          and rank = "Fin (1 / 2)" and item = "[65]" and inclusive = True
          and splitPoints = "[[65]]"]
      empty_sketch_queries_fail[where s = s1 and vo = no_view and d = d0
          and rank = "Fin 2" and inclusive = True]
      s0 n0 d0 dn s1 n1
    by simp
qed

subsection \<open>Serialization round trip\<close>









end
